theory Spec2Isabelle
  imports Complex_Main "HOL-Library.AList" "HOL-Library.Log_Nat" "HOL-Library.Multiset"
begin

section \<open>Numbers\<close>

text \<open>
  Every amount, percentage and commission of the program is a JavaScript \<open>number\<close>, a
  binary64 floating-point value. The model writes a finite number as the rational it
  denotes. The store, the dialog and the views are modelled with the exact arithmetic of
  \<^typ>\<open>rat\<close>; the calculator is modelled a second time with every operation rounded
  as the machine rounds it (\<open>calculations_double\<close>).
\<close>

type_synonym number = rat

text \<open>
  Rounding to binary64, to nearest with ties to even. \<open>pow2 e\<close> is \<open>2^e\<close>, \<open>binade x\<close>
  is the exponent \<open>e\<close> with \<open>2^e \<le> x < 2^(e+1)\<close> of a positive \<open>x\<close>, and \<open>double x\<close> is
  the multiple of the spacing \<open>2^q\<close> nearest to \<open>x\<close>, where \<open>q\<close> is \<open>e - 52\<close> for a normal
  number and \<open>-1074\<close> for a subnormal one. A result of magnitude \<open>2^1024\<close> or more is
  \<open>Infinity\<close> on the machine; the infinities and \<open>NaN\<close> are outside the model, and
  the statements about \<open>double\<close> bound their inputs away from them.
\<close>

definition pow2 :: "int \<Rightarrow> rat" where
  "pow2 e = (if 0 \<le> e then 2 ^ nat e else 1 / 2 ^ nat (- e))"

definition round_ties_even :: "rat \<Rightarrow> int" where
  "round_ties_even x =
     (let f = \<lfloor>x\<rfloor>; d = x - of_int f
      in if d < 1 / 2 then f else if 1 / 2 < d then f + 1 else if even f then f else f + 1)"

definition binade :: "rat \<Rightarrow> int" where
  "binade x = (if 1 \<le> x then bitlen \<lfloor>x\<rfloor> - 1 else - bitlen (\<lceil>1 / x\<rceil> - 1))"

definition double :: "rat \<Rightarrow> number" where
  "double x =
     (if x = 0 then 0
      else let q = max (binade \<bar>x\<bar> - 52) (- 1074)
           in sgn x * of_int (round_ties_even (\<bar>x\<bar> / pow2 q)) * pow2 q)"

text \<open>
  The unit roundoff \<open>2^-53\<close>, and the words used to state how far a computed value is
  from an exact one: \<open>within_roundings k v e\<close> says that \<open>v\<close> is the non-negative exact
  value \<open>e\<close> up to \<open>k\<close> roundings, and is zero or a normal number. A whole amount is a
  non-negative integer below \<open>2^53\<close>, as the calculator's digit-only input fields
  produce; a rate in range is zero or lies between \<open>2^-900\<close> and \<open>2^900\<close>. With whole
  amounts and rates in range no commission is subnormal, and no sum of fewer than \<open>2^32\<close>
  commissions (the most an array holds) reaches \<open>2^1024\<close>.
\<close>

definition unit_roundoff :: rat where
  "unit_roundoff = 1 / 2 ^ 53"

definition within_roundings :: "nat \<Rightarrow> number \<Rightarrow> rat \<Rightarrow> bool" where
  "within_roundings k v e =
     (0 \<le> e \<and> (1 - unit_roundoff) ^ k * e \<le> v \<and> v \<le> (1 + unit_roundoff) ^ k * e
      \<and> (v = 0 \<or> pow2 (- 1022) \<le> v))"

definition whole_amount :: "number \<Rightarrow> bool" where
  "whole_amount x = (of_int \<lfloor>x\<rfloor> = x \<and> 0 \<le> x \<and> x < 2 ^ 53)"

definition rate_in_range :: "number \<Rightarrow> bool" where
  "rate_in_range r = (r = 0 \<or> 1 / 2 ^ 900 \<le> r \<and> r \<le> 2 ^ 900)"

section \<open>Strings and objects\<close>

text \<open>A decimal digit (\<open>\d\<close>), and \<open>Number\<close> on a string of decimal digits.\<close>

definition is_digit :: "char \<Rightarrow> bool" where
  "is_digit c = (c \<in> set ''0123456789'')"

definition Number_of_digits :: "string \<Rightarrow> int" where
  "Number_of_digits s = foldl (\<lambda>n c. 10 * n + (int (of_char c) - 48)) 0 s"

text \<open>
  A plain object used as a dictionary is an association list of its own properties in
  the order of their creation. Two things set it apart from a dictionary. Reading a
  property that the object does not own falls through to the members every object
  inherits. And the object enumerates its properties with the array indices first (the
  canonical decimal numerals below \<open>2^32 - 1\<close>, in ascending order) and the other names
  after them in the order of their creation.
\<close>

definition inherited_members :: "string list" where
  "inherited_members =
     [''constructor'', ''__defineGetter__'', ''__defineSetter__'', ''hasOwnProperty'',
      ''__lookupGetter__'', ''__lookupSetter__'', ''isPrototypeOf'', ''propertyIsEnumerable'',
      ''toString'', ''valueOf'', ''__proto__'', ''toLocaleString'']"

datatype 'a js_property = Own 'a | Inherited | Undefined

definition get_property :: "(string \<times> 'a) list \<Rightarrow> string \<Rightarrow> 'a js_property" where
  "get_property obj key =
     (case map_of obj key of
        Some v \<Rightarrow> Own v
      | None \<Rightarrow> if key \<in> set inherited_members then Inherited else Undefined)"

definition is_array_index :: "string \<Rightarrow> bool" where
  "is_array_index s =
     (s \<noteq> [] \<and> list_all is_digit s \<and> (length s = 1 \<or> hd s \<noteq> CHR ''0'')
      \<and> Number_of_digits s < 4294967295)"

text \<open>\<open>Object.values(obj)\<close>.\<close>

definition object_values :: "(string \<times> 'a) list \<Rightarrow> 'a list" where
  "object_values obj =
     map snd (sort_key (\<lambda>kv. Number_of_digits (fst kv)) (filter (\<lambda>kv. is_array_index (fst kv)) obj)
              @ filter (\<lambda>kv. \<not> is_array_index (fst kv)) obj)"

text \<open>
  An exception thrown by the language, and \<open>forEach\<close> with a body that may throw: the
  first exception ends the loop.
\<close>

datatype js_error = TypeError

fun forEach :: "('s \<Rightarrow> 'a \<Rightarrow> js_error + 's) \<Rightarrow> 's \<Rightarrow> 'a list \<Rightarrow> js_error + 's" where
  "forEach body s [] = Inr s"
| "forEach body s (x # xs) =
     (case body s x of Inl e \<Rightarrow> Inl e | Inr s' \<Rightarrow> forEach body s' xs)"

section \<open>Commission Calculator (pages/Index.tsx)\<close>

text \<open>
  A configured category (\<open>useProducts\<close>): the fields the calculator reads.
  Field names carry a prefix, as HOL has one name space for all record fields.
\<close>

record Product =
  p_id :: string
  p_name :: string
  p_percentage :: number
  p_color :: string

text \<open>One element of \<open>calculations.breakdown\<close>.\<close>

record BreakdownItem =
  b_name :: string
  b_label :: string
  b_amount :: number
  b_percentage :: number
  b_commission :: number
  b_color :: string

record Calculations =
  breakdown :: "BreakdownItem list"
  restAmount :: number
  restCommission :: number
  totalCommission :: number

text \<open>
  \<open>productAmounts\<close> is a \<open>Record<string, number>\<close>: an association list in insertion
  order. \<open>productAmounts[id] || 0\<close> is the stored amount, and \<open>0\<close> for a missing key.
\<close>

type_synonym ProductAmounts = "(string \<times> number) list"

definition amount_or_0 :: "ProductAmounts \<Rightarrow> string \<Rightarrow> number" where
  "amount_or_0 productAmounts k =
     (case map_of productAmounts k of None \<Rightarrow> 0 | Some v \<Rightarrow> v)"

text \<open>The body of the \<open>useMemo\<close> named \<open>calculations\<close>; the two \<open>reduce\<close> calls are left folds.\<close>

definition calculations ::
  "number \<Rightarrow> ProductAmounts \<Rightarrow> Product list \<Rightarrow> number \<Rightarrow> Calculations" where
  "calculations totalInvoice productAmounts products restPercentage =
     (let breakdown_v = map (\<lambda>product.
            \<lparr> b_name = p_name product,
              b_label = p_name product,
              b_amount = amount_or_0 productAmounts (p_id product),
              b_percentage = p_percentage product,
              b_commission =
                amount_or_0 productAmounts (p_id product) * (p_percentage product / 100),
              b_color = p_color product \<rparr>) products;
          specialProductsTotal =
            foldl (\<lambda>sum amount. sum + amount) 0 (object_values productAmounts);
          restAmount_v = max 0 (totalInvoice - specialProductsTotal);
          restCommission_v = restAmount_v * (restPercentage / 100);
          totalCommission_v =
            foldl (\<lambda>sum item. sum + b_commission item) 0 breakdown_v + restCommission_v
      in \<lparr> breakdown = breakdown_v,
           restAmount = restAmount_v,
           restCommission = restCommission_v,
           totalCommission = totalCommission_v \<rparr>)"

text \<open>
  The same body in the arithmetic of the machine: every \<open>+\<close>, \<open>-\<close>, \<open>*\<close> and \<open>/\<close> of the
  source is followed by its rounding. \<open>Math.max\<close> and the constants \<open>0\<close> and \<open>100\<close> are
  exact.
\<close>

definition calculations_double ::
  "number \<Rightarrow> ProductAmounts \<Rightarrow> Product list \<Rightarrow> number \<Rightarrow> Calculations" where
  "calculations_double totalInvoice productAmounts products restPercentage =
     (let breakdown_v = map (\<lambda>product.
            \<lparr> b_name = p_name product,
              b_label = p_name product,
              b_amount = amount_or_0 productAmounts (p_id product),
              b_percentage = p_percentage product,
              b_commission =
                double (amount_or_0 productAmounts (p_id product)
                        * double (p_percentage product / 100)),
              b_color = p_color product \<rparr>) products;
          specialProductsTotal =
            foldl (\<lambda>sum amount. double (sum + amount)) 0 (object_values productAmounts);
          restAmount_v = max 0 (double (totalInvoice - specialProductsTotal));
          restCommission_v = double (restAmount_v * double (restPercentage / 100));
          totalCommission_v =
            double (foldl (\<lambda>sum item. double (sum + b_commission item)) 0 breakdown_v
                    + restCommission_v)
      in \<lparr> breakdown = breakdown_v,
           restAmount = restAmount_v,
           restCommission = restCommission_v,
           totalCommission = totalCommission_v \<rparr>)"

section \<open>Invoice store (hooks/useInvoices)\<close>

text \<open>
  Rows of the tables \<open>invoice_products\<close> and \<open>invoices\<close>. The backend's UUIDs are
  modelled as natural numbers drawn from a counter.
\<close>

record InvoiceProduct =
  ip_id :: nat
  ip_invoice_id :: nat
  product_name :: string
  amount :: number
  percentage :: number
  commission :: number

record InvoiceRow =
  inv_id :: nat
  ncf :: string
  total_amount :: number
  rest_amount :: number
  rest_percentage :: number
  rest_commission :: number
  total_commission :: number
  created_at :: string
  invoice_date :: string
  seller_id :: "string option"

text \<open>The interface \<open>Invoice\<close>: a row with its line items attached (\<open>products\<close>, \<open>[]\<close> when absent).\<close>

record Invoice = InvoiceRow +
  products :: "InvoiceProduct list"

text \<open>The element type of the \<open>products\<close> argument of \<open>saveInvoice\<close> and \<open>updateInvoice\<close>.\<close>

record LineInput =
  li_name :: string
  li_amount :: number
  li_percentage :: number
  li_commission :: number

text \<open>
  The hosted store. Each table is kept in the order of insertion, which is the order of
  \<open>created_at\<close>; \<open>now\<close> is the timestamp the backend gives the next inserted row.
\<close>

record Backend =
  invoices_tbl :: "InvoiceRow list"
  invoice_products_tbl :: "InvoiceProduct list"
  next_uuid :: nat
  now :: string

datatype toast = ToastError string | ToastSuccess string

text \<open>
  Every call of the store client can fail (network, backend). A record of flags says
  which calls of one operation fail; a failed call changes nothing in the store.
\<close>

record SaveFaults =
  sv_lookup_fails :: bool
  sv_insert_fails :: bool
  sv_products_fail :: bool

record UpdateFaults =
  up_lookup_fails :: bool
  up_update_fails :: bool
  up_delete_fails :: bool
  up_products_fail :: bool


text \<open>
  \<open>.maybeSingle()\<close>: the row when the query has exactly one, \<open>null\<close> when it has none,
  and an error with \<open>data = null\<close> when it has several. The callers read \<open>data\<close> only.
\<close>

definition maybeSingle :: "'a list \<Rightarrow> 'a option" where
  "maybeSingle rows = (case rows of [r] \<Rightarrow> Some r | _ \<Rightarrow> None)"

text \<open>\<open>.single()\<close>: the row when the query has exactly one, an error otherwise.\<close>

definition single_row :: "'a list \<Rightarrow> 'a option" where
  "single_row rows = (case rows of [r] \<Rightarrow> Some r | _ \<Rightarrow> None)"

text \<open>The rows built from \<open>products.filter(p => p.amount > 0).map(...)\<close>.\<close>

definition productInserts :: "nat \<Rightarrow> nat \<Rightarrow> LineInput list \<Rightarrow> InvoiceProduct list" where
  "productInserts first_uuid invoice_id_v products_v =
     map (\<lambda>(i, p).
            \<lparr> ip_id = first_uuid + i,
              ip_invoice_id = invoice_id_v,
              product_name = li_name p,
              amount = li_amount p,
              percentage = li_percentage p,
              commission = li_commission p \<rparr>)
         (enumerate 0 (filter (\<lambda>p. li_amount p > 0) products_v))"

text \<open>
  \<open>if (productInserts.length > 0) insert(productInserts)\<close>; an error of the insert is
  written to the console and nothing else.
\<close>

definition insert_products :: "bool \<Rightarrow> InvoiceProduct list \<Rightarrow> Backend \<Rightarrow> Backend" where
  "insert_products fails rows db =
     (if rows \<noteq> [] \<and> \<not> fails
      then db \<lparr> invoice_products_tbl := invoice_products_tbl db @ rows,
                next_uuid := next_uuid db + length rows \<rparr>
      else db)"

text \<open>
  What an operation of the hook leaves behind: the value returned, the notifications
  shown, the store, and whether \<open>fetchInvoices()\<close> was started.
\<close>

record 'a Outcome =
  returned :: 'a
  toasts :: "toast list"
  store :: Backend
  refetch :: bool

definition saveInvoice ::
  "SaveFaults \<Rightarrow> Backend \<Rightarrow> string \<Rightarrow> string \<Rightarrow> number \<Rightarrow> number \<Rightarrow> number \<Rightarrow> number \<Rightarrow>
   number \<Rightarrow> LineInput list \<Rightarrow> string option \<Rightarrow> InvoiceRow option Outcome" where
  "saveInvoice faults db ncf_v invoiceDate totalAmount restAmount_v restPercentage
      restCommission_v totalCommission_v products_v sellerId =
     (let existing =
            (if sv_lookup_fails faults then None
             else maybeSingle (filter (\<lambda>r. ncf r = ncf_v) (invoices_tbl db)))
      in if existing \<noteq> None then
           \<lparr> returned = None,
             toasts = [ToastError ''Ya existe una factura con este NCF''],
             store = db, refetch = False \<rparr>
         else if sv_insert_fails faults then
           \<lparr> returned = None,
             toasts = [ToastError ''Error al guardar factura''],
             store = db, refetch = False \<rparr>
         else
           let invoice =
                 \<lparr> inv_id = next_uuid db,
                   ncf = ncf_v,
                   total_amount = totalAmount,
                   rest_amount = restAmount_v,
                   rest_percentage = restPercentage,
                   rest_commission = restCommission_v,
                   total_commission = totalCommission_v,
                   created_at = now db,
                   invoice_date = invoiceDate,
                   seller_id = (if sellerId = Some [] then None else sellerId) \<rparr>;
               db1 = db \<lparr> invoices_tbl := invoices_tbl db @ [invoice],
                          next_uuid := next_uuid db + 1 \<rparr>;
               db2 = insert_products (sv_products_fail faults)
                       (productInserts (next_uuid db1) (inv_id invoice) products_v) db1
           in \<lparr> returned = Some invoice,
                toasts = [ToastSuccess ''Factura guardada correctamente''],
                store = db2, refetch = True \<rparr>)"

definition updateInvoice ::
  "UpdateFaults \<Rightarrow> Backend \<Rightarrow> nat \<Rightarrow> string \<Rightarrow> string \<Rightarrow> number \<Rightarrow> number \<Rightarrow> number \<Rightarrow>
   number \<Rightarrow> number \<Rightarrow> LineInput list \<Rightarrow> InvoiceRow option Outcome" where
  "updateInvoice faults db id_v ncf_v invoiceDate totalAmount restAmount_v restPercentage
      restCommission_v totalCommission_v products_v =
     (let existing =
            (if up_lookup_fails faults then None
             else maybeSingle
                    (filter (\<lambda>r. ncf r = ncf_v \<and> inv_id r \<noteq> id_v) (invoices_tbl db)));
          upd = (\<lambda>r. r \<lparr> ncf := ncf_v,
                          invoice_date := invoiceDate,
                          total_amount := totalAmount,
                          rest_amount := restAmount_v,
                          rest_percentage := restPercentage,
                          rest_commission := restCommission_v,
                          total_commission := totalCommission_v \<rparr>);
          db1 = db \<lparr> invoices_tbl :=
                       map (\<lambda>r. if inv_id r = id_v then upd r else r) (invoices_tbl db) \<rparr>;
          updated = single_row (filter (\<lambda>r. inv_id r = id_v) (invoices_tbl db1))
      in if existing \<noteq> None then
           \<lparr> returned = None,
             toasts = [ToastError ''Ya existe una factura con este NCF''],
             store = db, refetch = False \<rparr>
         else if up_update_fails faults then
           \<lparr> returned = None,
             toasts = [ToastError ''Error al actualizar factura''],
             store = db, refetch = False \<rparr>
         else if updated = None then
           \<lparr> returned = None,
             toasts = [ToastError ''Error al actualizar factura''],
             store = db1, refetch = False \<rparr>
         else
           let db2 = (if up_delete_fails faults then db1
                      else db1 \<lparr> invoice_products_tbl :=
                             filter (\<lambda>p. ip_invoice_id p \<noteq> id_v) (invoice_products_tbl db1) \<rparr>);
               db3 = insert_products (up_products_fail faults)
                       (productInserts (next_uuid db2) id_v products_v) db2
           in \<lparr> returned = updated,
                toasts = [ToastSuccess ''Factura actualizada correctamente''],
                store = db3, refetch = True \<rparr>)"

text \<open>The in-memory state of the hook.\<close>

record HookState =
  invoices :: "Invoice list"
  loading :: bool


text \<open>
  \<open>deleteInvoice\<close>. Deleting an invoice row deletes its line items with it (the foreign
  key of \<open>invoice_products\<close> cascades).
\<close>

definition deleteInvoice ::
  "bool \<Rightarrow> Backend \<Rightarrow> HookState \<Rightarrow> nat \<Rightarrow> (bool Outcome \<times> HookState)" where
  "deleteInvoice fails db st id_v =
     (if fails then
        (\<lparr> returned = False, toasts = [ToastError ''Error al eliminar factura''],
           store = db, refetch = False \<rparr>, st)
      else
        (\<lparr> returned = True, toasts = [ToastSuccess ''Factura eliminada''],
           store = db \<lparr> invoices_tbl := filter (\<lambda>r. inv_id r \<noteq> id_v) (invoices_tbl db),
                        invoice_products_tbl :=
                          filter (\<lambda>p. ip_invoice_id p \<noteq> id_v) (invoice_products_tbl db) \<rparr>,
           refetch = False \<rparr>,
         st \<lparr> invoices := filter (\<lambda>i. inv_id i \<noteq> id_v) (invoices st) \<rparr>))"

section \<open>Saving from the calculator (pages/Index.tsx)\<close>

text \<open>The two pieces of state of the page that the calculator reads.\<close>

record IndexState =
  totalInvoice :: number
  productAmounts :: ProductAmounts

text \<open>\<open>handleProductChange\<close>: \<open>{ ...prev, [id]: value }\<close>.\<close>

definition handleProductChange :: "string \<Rightarrow> number \<Rightarrow> IndexState \<Rightarrow> IndexState" where
  "handleProductChange k v st = st \<lparr> productAmounts := AList.update k v (productAmounts st) \<rparr>"

text \<open>\<open>handleReset\<close>: total \<open>0\<close> and a fresh map with \<open>0\<close> for every configured category.\<close>

definition handleReset :: "Product list \<Rightarrow> IndexState \<Rightarrow> IndexState" where
  "handleReset products_v st =
     \<lparr> totalInvoice = 0,
       productAmounts = foldl (\<lambda>resetAmounts p. AList.update (p_id p) 0 resetAmounts) [] products_v \<rparr>"

text \<open>
  \<open>handleSaveInvoice\<close>: the breakdown of the calculator is handed to \<open>saveInvoice\<close>
  (no seller); on success the page is reset. The bookkeeping of the last NCF number
  belongs to the settings hook and is left out.
\<close>

definition handleSaveInvoice ::
  "SaveFaults \<Rightarrow> Backend \<Rightarrow> Product list \<Rightarrow> number \<Rightarrow> IndexState \<Rightarrow> string \<Rightarrow> string \<Rightarrow>
   InvoiceRow option Outcome \<times> IndexState" where
  "handleSaveInvoice faults db products_v restPercentage st ncf_v invoiceDate =
     (let calc = calculations (totalInvoice st) (productAmounts st) products_v restPercentage;
          productBreakdown =
            map (\<lambda>b. \<lparr> li_name = b_name b,
                       li_amount = b_amount b,
                       li_percentage = b_percentage b,
                       li_commission = b_commission b \<rparr>) (breakdown calc);
          result = saveInvoice faults db ncf_v invoiceDate (totalInvoice st) (restAmount calc)
                     restPercentage (restCommission calc) (totalCommission calc)
                     productBreakdown None
      in (result, if returned result \<noteq> None then handleReset products_v st else st))"

section \<open>Editing a saved invoice (components/EditInvoiceDialog.tsx)\<close>

text \<open>
  The state of the dialog. \<open>ed_invoiceDate\<close> holds the date as \<open>handleSubmit\<close> sends
  it, in the form \<open>yyyy-MM-dd\<close>.
\<close>

record EditState =
  ed_ncfSuffix :: string
  ed_invoiceDate :: string
  ed_totalAmount :: number
  ed_products :: "LineInput list"
  ed_restPercentage :: number

definition ncfPrefix :: string where
  "ncfPrefix = ''B01000''"

text \<open>\<open>s.slice(-4)\<close> and \<open>s.padStart(4, '0')\<close>.\<close>

definition slice_last4 :: "string \<Rightarrow> string" where
  "slice_last4 s = drop (length s - 4) s"

definition padStart4 :: "string \<Rightarrow> string" where
  "padStart4 s = replicate (4 - length s) (CHR ''0'') @ s"

text \<open>\<open>invoice.invoice_date || invoice.created_at\<close>: the empty string is falsy.\<close>

definition effective_date :: "'a InvoiceRow_scheme \<Rightarrow> string" where
  "effective_date invoice =
     (if invoice_date invoice \<noteq> [] then invoice_date invoice else created_at invoice)"

text \<open>
  A dialog instance as it is mounted on \<open>invoice\<close>: the initial values of its \<open>useState\<close>
  calls. The rate is \<open>useState(invoice.rest_percentage || 25)\<close>; it has no setter, so
  the instance keeps it for as long as it lives, whatever invoice it is handed later.
  \<open>today\<close> is \<open>new Date()\<close> in the form \<open>yyyy-MM-dd\<close>.
\<close>

definition mount_dialog :: "string \<Rightarrow> Invoice \<Rightarrow> EditState" where
  "mount_dialog today invoice =
     \<lparr> ed_ncfSuffix = [],
       ed_invoiceDate = today,
       ed_totalAmount = 0,
       ed_products = [],
       ed_restPercentage =
         (if rest_percentage invoice = 0 then 25 else rest_percentage invoice) \<rparr>"

text \<open>
  The effect on \<open>[open, invoice]\<close>, run when the dialog opens: it loads the suffix, the
  date, the total and the line items of the invoice the instance holds at that moment,
  and leaves the rate alone. \<open>as_date\<close> stands for
  \<open>format(parseInvoiceDate(s), 'yyyy-MM-dd')\<close>.
\<close>

definition open_dialog :: "(string \<Rightarrow> string) \<Rightarrow> Invoice \<Rightarrow> EditState \<Rightarrow> EditState" where
  "open_dialog as_date invoice st =
     st \<lparr> ed_ncfSuffix :=
            (if length (ncf invoice) \<ge> 4 then slice_last4 (ncf invoice) else ncf invoice),
          ed_invoiceDate := as_date (effective_date invoice),
          ed_totalAmount := total_amount invoice,
          ed_products := map (\<lambda>p. \<lparr> li_name = product_name p,
                                      li_amount = amount p,
                                      li_percentage = percentage p,
                                      li_commission = commission p \<rparr>) (products invoice) \<rparr>"

text \<open>
  \<open>handleProductAmountChange(index, value)\<close>, with \<open>numValue\<close> the integer read from
  \<open>value\<close>. An index outside the list is a \<open>TypeError\<close> (\<open>None\<close>).
\<close>

definition handleProductAmountChange :: "nat \<Rightarrow> int \<Rightarrow> EditState \<Rightarrow> EditState option" where
  "handleProductAmountChange index numValue st =
     (if index < length (ed_products st) then
        let p = ed_products st ! index;
            p' = p \<lparr> li_amount := of_int numValue,
                      li_commission := of_int numValue * (li_percentage p / 100) \<rparr>
        in Some (st \<lparr> ed_products := (ed_products st)[index := p'] \<rparr>)
      else None)"

text \<open>
  \<open>handleSubmit\<close>: nothing is sent unless the suffix has four characters (\<open>None\<close>);
  otherwise the outcome of \<open>onUpdate\<close>, which is \<open>updateInvoice\<close>.
\<close>

definition handleSubmit ::
  "UpdateFaults \<Rightarrow> Backend \<Rightarrow> Invoice \<Rightarrow> EditState \<Rightarrow> InvoiceRow option Outcome option" where
  "handleSubmit faults db invoice st =
     (if length (ed_ncfSuffix st) \<noteq> 4 then None
      else
        let fullNcf = ncfPrefix @ padStart4 (ed_ncfSuffix st);
            productsTotal = foldl (\<lambda>sum p. sum + li_amount p) 0 (ed_products st);
            productsCommission = foldl (\<lambda>sum p. sum + li_commission p) 0 (ed_products st);
            restAmount_v = ed_totalAmount st - productsTotal;
            restCommission_v = restAmount_v * (ed_restPercentage st / 100);
            totalCommission_v = productsCommission + restCommission_v
        in Some (updateInvoice faults db (inv_id invoice) fullNcf (ed_invoiceDate st)
                   (ed_totalAmount st) restAmount_v (ed_restPercentage st) restCommission_v
                   totalCommission_v (ed_products st)))"

section \<open>Dates\<close>

text \<open>
  A JavaScript \<open>Date\<close> is modelled by its time value on the local time line:
  milliseconds since local midnight of 1 January 1970, the zone keeping one offset.
  \<open>None\<close> is the invalid date. \<open>DayFromYear\<close>, \<open>InLeapYear\<close> and \<open>MakeDay\<close> are the
  functions of the language standard behind \<open>new Date(year, monthIndex, day)\<close>; month
  indices run from 0 and overflow into the neighbouring years, days overflow into the
  neighbouring months.
\<close>

type_synonym time_value = int

definition msPerDay :: int where
  "msPerDay = 86400000"

definition InLeapYear :: "int \<Rightarrow> bool" where
  "InLeapYear y = (y mod 4 = 0 \<and> (y mod 100 \<noteq> 0 \<or> y mod 400 = 0))"

definition DayFromYear :: "int \<Rightarrow> int" where
  "DayFromYear y =
     365 * (y - 1970) + (y - 1969) div 4 - (y - 1901) div 100 + (y - 1601) div 400"

definition DaysBeforeMonth :: "int \<Rightarrow> int \<Rightarrow> int" where
  "DaysBeforeMonth y mn =
     [0, 31, 59, 90, 120, 151, 181, 212, 243, 273, 304, 334] ! nat mn
       + (if 2 \<le> mn \<and> InLeapYear y then 1 else 0)"

definition MakeDay :: "int \<Rightarrow> int \<Rightarrow> int \<Rightarrow> int" where
  "MakeDay year month date =
     (let ym = year + month div 12; mn = month mod 12
      in DayFromYear ym + DaysBeforeMonth ym mn + date - 1)"

text \<open>\<open>new Date(year, monthIndex, day)\<close>; a year from 0 to 99 means 1900 + year.\<close>

definition new_Date :: "int \<Rightarrow> int \<Rightarrow> int \<Rightarrow> time_value" where
  "new_Date year monthIndex day =
     MakeDay (if 0 \<le> year \<and> year \<le> 99 then 1900 + year else year) monthIndex day * msPerDay"

text \<open>The test \<open>/^\d{4}-\d{2}-\d{2}$/\<close>.\<close>

definition is_date_only :: "string \<Rightarrow> bool" where
  "is_date_only s =
     (length s = 10 \<and> list_all is_digit (take 4 s) \<and> s ! 4 = CHR ''-''
      \<and> list_all is_digit (take 2 (drop 5 s)) \<and> s ! 7 = CHR ''-''
      \<and> list_all is_digit (drop 8 s))"

text \<open>
  \<open>parseInvoiceDate\<close>, the same in every component that has it. \<open>Date_parse\<close> is the
  host's \<open>new Date(dateString)\<close> for the other strings (timestamps).
\<close>

definition parseInvoiceDate :: "(string \<Rightarrow> time_value option) \<Rightarrow> string \<Rightarrow> time_value option" where
  "parseInvoiceDate Date_parse dateString =
     (if is_date_only dateString then
        let year = Number_of_digits (take 4 dateString);
            month = Number_of_digits (take 2 (drop 5 dateString));
            day = Number_of_digits (drop 8 dateString)
        in Some (new_Date year (month - 1) day)
      else Date_parse dateString)"

text \<open>
  The functions of the date library. \<open>startOfMonth\<close> and \<open>endOfMonth\<close> read the local year
  and month of their argument and nothing else; the model hands them that pair
  \<open>(getFullYear(), getMonth())\<close>. \<open>month_of_new_Date\<close> is the pair of
  \<open>new Date(year, monthIndex, 1)\<close>, and \<open>subMonths\<close> moves the pair back.
\<close>

type_synonym local_month = "int \<times> int"

definition month_of_new_Date :: "int \<Rightarrow> int \<Rightarrow> local_month" where
  "month_of_new_Date year monthIndex =
     ((if 0 \<le> year \<and> year \<le> 99 then 1900 + year else year) + monthIndex div 12,
      monthIndex mod 12)"

definition startOfMonth :: "local_month \<Rightarrow> time_value" where
  "startOfMonth d = MakeDay (fst d) (snd d) 1 * msPerDay"

definition endOfMonth :: "local_month \<Rightarrow> time_value" where
  "endOfMonth d = MakeDay (fst d) (snd d + 1) 0 * msPerDay + (msPerDay - 1)"

definition subMonths :: "local_month \<Rightarrow> int \<Rightarrow> local_month" where
  "subMonths d n = (fst d + (snd d - n) div 12, (snd d - n) mod 12)"

definition isWithinInterval :: "time_value option \<Rightarrow> time_value \<Rightarrow> time_value \<Rightarrow> bool" where
  "isWithinInterval date start_v end_v =
     (case date of None \<Rightarrow> False | Some t \<Rightarrow> start_v \<le> t \<and> t \<le> end_v)"

text \<open>
  The calendar in the words of the specification. \<open>DaysInMonth y mn\<close> is the length of
  the month with index \<open>mn\<close> of year \<open>y\<close>. The first instant of a month is local midnight
  of its first day; its last instant is the millisecond before the first instant of the
  month that follows. \<open>month_start_day k\<close> is the day number of the first day of the month
  with ordinal \<open>k = 12 * year + monthIndex\<close>.
\<close>

definition DaysInMonth :: "int \<Rightarrow> int \<Rightarrow> int" where
  "DaysInMonth y mn =
     (if mn = 1 then (if InLeapYear y then 29 else 28)
      else if mn = 3 \<or> mn = 5 \<or> mn = 8 \<or> mn = 10 then 30 else 31)"

definition month_start_day :: "int \<Rightarrow> int" where
  "month_start_day k = DayFromYear (k div 12) + DaysBeforeMonth (k div 12) (k mod 12)"

definition month_first_instant :: "int \<Rightarrow> int \<Rightarrow> time_value" where
  "month_first_instant year month = new_Date year (month - 1) 1"

definition month_last_instant :: "int \<Rightarrow> int \<Rightarrow> time_value" where
  "month_last_instant year month = new_Date year month 1 - 1"

definition next_month :: "int \<times> int \<Rightarrow> int \<times> int" where
  "next_month ym = (if snd ym = 12 then (fst ym + 1, 1) else (fst ym, snd ym + 1))"

text \<open>
  The words of the specification for the dates. The recorded date of an invoice is its
  \<open>invoice_date\<close> when it has one and its \<open>created_at\<close> otherwise. \<open>date_text y m d\<close> is
  the date-only string \<open>yyyy-MM-dd\<close> written from three numbers, and \<open>date_shaped\<close> holds
  of the strings of that shape. An invoice is dated on the calendar day \<open>d\<close> of month \<open>m\<close>
  (1 to 12) of year \<open>y\<close> when its recorded date is the date-only string of that day.
\<close>

definition recorded_date :: "'a InvoiceRow_scheme \<Rightarrow> string" where
  "recorded_date invoice =
     (if invoice_date invoice = [] then created_at invoice else invoice_date invoice)"

definition digit_char :: "nat \<Rightarrow> char" where
  "digit_char n = ''0123456789'' ! n"

definition two_digits :: "nat \<Rightarrow> string" where
  "two_digits n = [digit_char (n div 10), digit_char (n mod 10)]"

definition four_digits :: "nat \<Rightarrow> string" where
  "four_digits n = [digit_char (n div 1000), digit_char (n div 100 mod 10),
                    digit_char (n div 10 mod 10), digit_char (n mod 10)]"

definition date_text :: "nat \<Rightarrow> nat \<Rightarrow> nat \<Rightarrow> string" where
  "date_text y m d = four_digits y @ ''-'' @ two_digits m @ ''-'' @ two_digits d"

definition date_shaped :: "string \<Rightarrow> bool" where
  "date_shaped s =
     (case s of
        [y1, y2, y3, y4, h1, m1, m2, h2, d1, d2] \<Rightarrow>
          is_digit y1 \<and> is_digit y2 \<and> is_digit y3 \<and> is_digit y4 \<and> h1 = CHR ''-''
          \<and> is_digit m1 \<and> is_digit m2 \<and> h2 = CHR ''-'' \<and> is_digit d1 \<and> is_digit d2
      | _ \<Rightarrow> False)"

definition dated_on :: "Invoice \<Rightarrow> int \<Rightarrow> int \<Rightarrow> int \<Rightarrow> bool" where
  "dated_on invoice y m d =
     (recorded_date invoice = date_text (nat y) (nat m) (nat d)
      \<and> 100 \<le> y \<and> y \<le> 9999 \<and> 1 \<le> m \<and> m \<le> 12 \<and> 1 \<le> d \<and> d \<le> DaysInMonth y (m - 1))"

section \<open>Monthly Aggregator (components/MonthlyBreakdown.tsx)\<close>

text \<open>
  \<open>filteredInvoices\<close>. The selected month is the key \<open>yyyy-MM\<close>; the model takes the two
  numbers \<open>year\<close> and \<open>month\<close> that the key splits into.
\<close>

definition filteredInvoices ::
  "(string \<Rightarrow> time_value option) \<Rightarrow> Invoice list \<Rightarrow> int \<times> int \<Rightarrow> Invoice list" where
  "filteredInvoices Date_parse invoices_v selectedMonth =
     (let year = fst selectedMonth; month = snd selectedMonth;
          start_v = startOfMonth (month_of_new_Date year (month - 1));
          end_v = endOfMonth (month_of_new_Date year (month - 1))
      in filter (\<lambda>invoice.
           isWithinInterval (parseInvoiceDate Date_parse (effective_date invoice)) start_v end_v)
           invoices_v)"

record ProductEntry =
  e_ncf :: string
  e_date :: string
  e_amount :: number

record ProductBreakdown =
  pb_name :: string
  pb_percentage :: number
  pb_entries :: "ProductEntry list"
  pb_totalAmount :: number
  pb_totalCommission :: number

text \<open>
  The body of the inner \<open>forEach\<close> of \<open>productsBreakdown\<close>: \<open>groups\<close> is the object
  \<open>products\<close>, keyed by category name. \<open>if (!products[key])\<close> creates the group when
  the read finds nothing; \<open>products[key].entries.push(...)\<close> then needs a group of the
  object's own: on an inherited member \<open>.entries\<close> is \<open>undefined\<close> and \<open>push\<close> throws a
  \<open>TypeError\<close>.
\<close>

definition add_product ::
  "Invoice \<Rightarrow> (string \<times> ProductBreakdown) list \<Rightarrow> InvoiceProduct \<Rightarrow>
   js_error + (string \<times> ProductBreakdown) list" where
  "add_product invoice groups product =
     (if amount product \<le> 0 then Inr groups
      else
        let key = product_name product;
            groups1 =
              (if get_property groups key = Undefined then
                 AList.update key
                   \<lparr> pb_name = product_name product,
                     pb_percentage = percentage product,
                     pb_entries = [],
                     pb_totalAmount = 0,
                     pb_totalCommission = 0 \<rparr> groups
               else groups)
        in case get_property groups1 key of
             Own g0 \<Rightarrow>
               Inr (AList.map_entry key
                 (\<lambda>g. g \<lparr> pb_entries := pb_entries g @
                             [\<lparr> e_ncf = ncf invoice,
                                e_date = effective_date invoice,
                                e_amount = amount product \<rparr>],
                           pb_totalAmount := pb_totalAmount g + amount product,
                           pb_totalCommission := pb_totalCommission g + commission product \<rparr>)
                 groups1)
           | _ \<Rightarrow> Inl TypeError)"

text \<open>
  \<open>productsBreakdown\<close>: the two nested loops, then the groups as the object enumerates
  them, sorted with the comparator \<open>b.totalAmount - a.totalAmount\<close> (a stable sort).
\<close>

definition product_groups :: "Invoice list \<Rightarrow> js_error + (string \<times> ProductBreakdown) list" where
  "product_groups filtered =
     forEach (\<lambda>groups invoice. forEach (add_product invoice) groups (products invoice))
       [] filtered"

definition productsBreakdown :: "Invoice list \<Rightarrow> js_error + ProductBreakdown list" where
  "productsBreakdown filtered =
     (case product_groups filtered of
        Inl e \<Rightarrow> Inl e
      | Inr groups \<Rightarrow> Inr (sort_key (\<lambda>g. - pb_totalAmount g) (object_values groups)))"

record RestBreakdown =
  rb_entries :: "ProductEntry list"
  rb_totalAmount :: number
  rb_totalCommission :: number

definition restBreakdown :: "Invoice list \<Rightarrow> RestBreakdown" where
  "restBreakdown filtered =
     foldl (\<lambda>acc invoice.
              if rest_amount invoice > 0 then
                \<lparr> rb_entries = rb_entries acc @
                    [\<lparr> e_ncf = ncf invoice,
                       e_date = effective_date invoice,
                       e_amount = rest_amount invoice \<rparr>],
                  rb_totalAmount = rb_totalAmount acc + rest_amount invoice,
                  rb_totalCommission = rb_totalCommission acc + rest_commission invoice \<rparr>
              else acc)
           \<lparr> rb_entries = [], rb_totalAmount = 0, rb_totalCommission = 0 \<rparr> filtered"

definition grandTotalCommission :: "Invoice list \<Rightarrow> js_error + number" where
  "grandTotalCommission filtered =
     (case productsBreakdown filtered of
        Inl e \<Rightarrow> Inl e
      | Inr groups \<Rightarrow>
          Inr (foldl (\<lambda>sum p. sum + pb_totalCommission p) 0 groups
                 + rb_totalCommission (restBreakdown filtered)))"

text \<open>
  One step of the two nested loops on a line item with its invoice, for a category name
  that is no inherited member: the group is created when missing and the entry added.
\<close>

definition add_item ::
  "(string \<times> ProductBreakdown) list \<Rightarrow> Invoice \<times> InvoiceProduct \<Rightarrow>
   (string \<times> ProductBreakdown) list" where
  "add_item groups ip =
     (let key = product_name (snd ip);
          groups1 =
            (if map_of groups key = None then
               AList.update key
                 \<lparr> pb_name = product_name (snd ip),
                   pb_percentage = percentage (snd ip),
                   pb_entries = [],
                   pb_totalAmount = 0,
                   pb_totalCommission = 0 \<rparr> groups
             else groups)
      in AList.map_entry key
           (\<lambda>g. g \<lparr> pb_entries := pb_entries g @
                       [\<lparr> e_ncf = ncf (fst ip),
                          e_date = effective_date (fst ip),
                          e_amount = amount (snd ip) \<rparr>],
                     pb_totalAmount := pb_totalAmount g + amount (snd ip),
                     pb_totalCommission := pb_totalCommission g + commission (snd ip) \<rparr>)
           groups1)"

text \<open>
  \<open>add_line\<close> is the body of the inner loop on a line item with its invoice;
  \<open>plain_groups\<close> are the groups built from the line items with a positive amount
  when no category name is an inherited member.
\<close>

definition add_line ::
  "(string \<times> ProductBreakdown) list \<Rightarrow> Invoice \<times> InvoiceProduct \<Rightarrow>
   js_error + (string \<times> ProductBreakdown) list" where
  "add_line groups ip = add_product (fst ip) groups (snd ip)"

text \<open>
  The grouping in the words of the specification. \<open>line_items\<close> lists, in order, the
  line items with a positive amount, each with its invoice. The group of a category name
  takes the line items of that name: their entries, the sum of their amounts and the sum
  of their commissions; its percentage is the one of the first of them.
\<close>

definition plain_names :: "Invoice list \<Rightarrow> bool" where
  "plain_names filtered =
     (\<forall>invoice\<in>set filtered. \<forall>p\<in>set (products invoice).
        amount p > 0 \<longrightarrow> product_name p \<notin> set inherited_members)"

definition line_items :: "Invoice list \<Rightarrow> (Invoice \<times> InvoiceProduct) list" where
  "line_items filtered =
     concat (map (\<lambda>invoice. map (Pair invoice) (filter (\<lambda>p. amount p > 0) (products invoice)))
       filtered)"

definition plain_groups :: "Invoice list \<Rightarrow> (string \<times> ProductBreakdown) list" where
  "plain_groups filtered = foldl add_item [] (line_items filtered)"

definition group_of :: "string \<Rightarrow> (Invoice \<times> InvoiceProduct) list \<Rightarrow> ProductBreakdown" where
  "group_of n items =
     (let its = filter (\<lambda>ip. product_name (snd ip) = n) items
      in \<lparr> pb_name = n,
           pb_percentage = percentage (snd (hd its)),
           pb_entries = map (\<lambda>ip. \<lparr> e_ncf = ncf (fst ip),
                                       e_date = effective_date (fst ip),
                                       e_amount = amount (snd ip) \<rparr>) its,
           pb_totalAmount = sum_list (map (\<lambda>ip. amount (snd ip)) its),
           pb_totalCommission = sum_list (map (\<lambda>ip. commission (snd ip)) its) \<rparr>)"

section \<open>Statistics Engine (components/Statistics.tsx)\<close>

record MonthStats =
  ms_totalSales :: number
  ms_totalCommission :: number
  ms_invoiceCount :: nat
  ms_avgPerInvoice :: number

text \<open>
  The statistics of the month of a date; \<open>selectedMonthStats\<close> takes the selected date,
  \<open>previousMonthStats\<close> the date one month before. The selected date enters through its
  local year and month.
\<close>

definition month_stats ::
  "(string \<Rightarrow> time_value option) \<Rightarrow> Invoice list \<Rightarrow> local_month \<Rightarrow> MonthStats" where
  "month_stats Date_parse invoices_v d =
     (let start_v = startOfMonth d;
          end_v = endOfMonth d;
          monthInvoices =
            filter (\<lambda>invoice.
              isWithinInterval (parseInvoiceDate Date_parse (effective_date invoice)) start_v end_v)
              invoices_v
      in \<lparr> ms_totalSales = foldl (\<lambda>sum i. sum + total_amount i) 0 monthInvoices,
           ms_totalCommission = foldl (\<lambda>sum i. sum + total_commission i) 0 monthInvoices,
           ms_invoiceCount = length monthInvoices,
           ms_avgPerInvoice =
             (if length monthInvoices > 0
              then foldl (\<lambda>sum i. sum + total_commission i) 0 monthInvoices
                     / of_nat (length monthInvoices)
              else 0) \<rparr>)"

definition selectedMonthStats ::
  "(string \<Rightarrow> time_value option) \<Rightarrow> Invoice list \<Rightarrow> local_month \<Rightarrow> MonthStats" where
  "selectedMonthStats Date_parse invoices_v selectedDate =
     month_stats Date_parse invoices_v selectedDate"

definition previousMonthStats ::
  "(string \<Rightarrow> time_value option) \<Rightarrow> Invoice list \<Rightarrow> local_month \<Rightarrow> MonthStats" where
  "previousMonthStats Date_parse invoices_v selectedDate =
     month_stats Date_parse invoices_v (subMonths selectedDate 1)"

definition salesChange ::
  "(string \<Rightarrow> time_value option) \<Rightarrow> Invoice list \<Rightarrow> local_month \<Rightarrow> number" where
  "salesChange Date_parse invoices_v selectedDate =
     (let cur = selectedMonthStats Date_parse invoices_v selectedDate;
          prev = previousMonthStats Date_parse invoices_v selectedDate
      in if ms_totalSales prev > 0
         then ((ms_totalSales cur - ms_totalSales prev) / ms_totalSales prev) * 100
         else 0)"

definition commissionChange ::
  "(string \<Rightarrow> time_value option) \<Rightarrow> Invoice list \<Rightarrow> local_month \<Rightarrow> number" where
  "commissionChange Date_parse invoices_v selectedDate =
     (let cur = selectedMonthStats Date_parse invoices_v selectedDate;
          prev = previousMonthStats Date_parse invoices_v selectedDate
      in if ms_totalCommission prev > 0
         then ((ms_totalCommission cur - ms_totalCommission prev) / ms_totalCommission prev) * 100
         else 0)"

definition invoiceCountChange ::
  "(string \<Rightarrow> time_value option) \<Rightarrow> Invoice list \<Rightarrow> local_month \<Rightarrow> number" where
  "invoiceCountChange Date_parse invoices_v selectedDate =
     (let cur = selectedMonthStats Date_parse invoices_v selectedDate;
          prev = previousMonthStats Date_parse invoices_v selectedDate
      in if ms_invoiceCount prev > 0
         then ((of_nat (ms_invoiceCount cur) - of_nat (ms_invoiceCount prev))
                 / of_nat (ms_invoiceCount prev)) * 100
         else 0)"

text \<open>
  The three summary cards: each shows its change indicator only under its own guard
  (\<open>previousMonthStats.totalSales > 0 && ...\<close>); \<open>None\<close> is a card without indicator,
  \<open>Some c\<close> an indicator showing the change \<open>c\<close>.
\<close>

record SummaryCards =
  sales_indicator :: "number option"
  commission_indicator :: "number option"
  count_indicator :: "number option"

definition summary_cards ::
  "(string \<Rightarrow> time_value option) \<Rightarrow> Invoice list \<Rightarrow> local_month \<Rightarrow> SummaryCards" where
  "summary_cards Date_parse invoices_v selectedDate =
     (let prev = previousMonthStats Date_parse invoices_v selectedDate
      in \<lparr> sales_indicator =
             (if ms_totalSales prev > 0
              then Some (salesChange Date_parse invoices_v selectedDate) else None),
           commission_indicator =
             (if ms_totalCommission prev > 0
              then Some (commissionChange Date_parse invoices_v selectedDate) else None),
           count_indicator =
             (if ms_invoiceCount prev > 0
              then Some (invoiceCountChange Date_parse invoices_v selectedDate) else None) \<rparr>)"

section \<open>The page and its tabs (pages/Index.tsx)\<close>








section \<open>Example data\<close>

definition ex_row :: InvoiceRow where
  "ex_row = \<lparr> inv_id = 0, ncf = ''B010000001'', total_amount = 100, rest_amount = 50,
              rest_percentage = 0, rest_commission = 0, total_commission = 5,
              created_at = ''2024-03-01T10:00:00+00:00'', invoice_date = ''2024-03-01'',
              seller_id = None \<rparr>"

definition ex_line :: InvoiceProduct where
  "ex_line = \<lparr> ip_id = 1, ip_invoice_id = 0, product_name = ''A'', amount = 50,
               percentage = 10, commission = 5 \<rparr>"

definition ex_db :: Backend where
  "ex_db = \<lparr> invoices_tbl = [ex_row], invoice_products_tbl = [ex_line], next_uuid = 2,
             now = ''2024-03-02T09:00:00+00:00'' \<rparr>"

definition ex_invoice :: Invoice where
  "ex_invoice = InvoiceRow.extend ex_row (Invoice.fields [ex_line])"

definition ex_feb_invoice :: Invoice where
  "ex_feb_invoice =
     ex_invoice \<lparr> inv_id := 7, ncf := ''B010000007'', invoice_date := ''2024-02-29'' \<rparr>"

text \<open>
  An invoice without \<open>invoice_date\<close>, created on 15 March 2024 at half past ten local
  time, and a host parser that reads that one timestamp.
\<close>

definition ex_created_invoice :: Invoice where
  "ex_created_invoice =
     ex_invoice \<lparr> inv_id := 20, ncf := ''B010000020'', invoice_date := [],
                  created_at := ''2024-03-15T10:30:00'' \<rparr>"

definition ex_Date_parse :: "string \<Rightarrow> time_value option" where
  "ex_Date_parse s =
     (if s = ''2024-03-15T10:30:00'' then Some (new_Date 2024 2 15 + 37800000) else None)"

definition ex_april_invoice :: Invoice where
  "ex_april_invoice =
     \<lparr> inv_id = 9, ncf = ''B010000009'', total_amount = 220, rest_amount = 0,
       rest_percentage = 25, rest_commission = 0, total_commission = 42,
       created_at = ''2024-04-02T10:00:00+00:00'', invoice_date = ''2024-04-02'',
       seller_id = None,
       products =
         [\<lparr> ip_id = 10, ip_invoice_id = 9, product_name = ''A'', amount = 20,
            percentage = 10, commission = 2 \<rparr>,
          \<lparr> ip_id = 11, ip_invoice_id = 9, product_name = ''B'', amount = 200,
            percentage = 20, commission = 40 \<rparr>,
          \<lparr> ip_id = 12, ip_invoice_id = 9, product_name = ''C'', amount = 0,
            percentage = 30, commission = 0 \<rparr>] \<rparr>"




definition ex_row2 :: InvoiceRow where
  "ex_row2 = ex_row \<lparr> inv_id := 7, ncf := ''B010000007'', invoice_date := ''2024-02-29'' \<rparr>"

definition ex_db2 :: Backend where
  "ex_db2 = \<lparr> invoices_tbl = [ex_row, ex_row2], invoice_products_tbl = [ex_line],
              next_uuid = 8, now = ''2024-03-02T09:00:00+00:00'' \<rparr>"

definition ex_constructor_invoice :: Invoice where
  "ex_constructor_invoice =
     \<lparr> inv_id = 12, ncf = ''B010000012'', total_amount = 100, rest_amount = 90,
       rest_percentage = 25, rest_commission = 45 / 2, total_commission = 47 / 2,
       created_at = ''2024-05-02T10:00:00+00:00'', invoice_date = ''2024-05-02'',
       seller_id = None,
       products =
         [\<lparr> ip_id = 13, ip_invoice_id = 12, product_name = ''constructor'', amount = 10,
            percentage = 10, commission = 1 \<rparr>] \<rparr>"

definition no_update_faults :: UpdateFaults where
  "no_update_faults = \<lparr> up_lookup_fails = False, up_update_fails = False,
                        up_delete_fails = False, up_products_fail = False \<rparr>"

definition no_save_faults :: SaveFaults where
  "no_save_faults = \<lparr> sv_lookup_fails = False, sv_insert_fails = False,
                      sv_products_fail = False \<rparr>"

section \<open>Properties of the rounding\<close>

lemma pow2_powi: "pow2 e = 2 powi e"
  by (simp add: pow2_def power_int_def power_inverse [symmetric] inverse_eq_divide power_one_over)

lemma pow2_pos: "0 < pow2 e"
  by (simp add: pow2_powi)

lemma pow2_add: "pow2 (a + b) = pow2 a * pow2 b"
  by (simp add: pow2_powi power_int_add)

lemma pow2_mono: "a \<le> b \<Longrightarrow> pow2 a \<le> pow2 b"
  by (simp add: pow2_powi power_int_increasing)

lemma pow2_strict_mono: "a < b \<Longrightarrow> pow2 a < pow2 b"
  by (simp add: pow2_powi power_int_strict_increasing)

lemma pow2_nat: "0 \<le> e \<Longrightarrow> pow2 e = 2 ^ nat e"
  by (simp add: pow2_def)

lemma pow2_of_int: "0 \<le> e \<Longrightarrow> pow2 e = of_int (2 ^ nat e)"
  by (simp add: pow2_def)

lemma bitlen_pos: "0 < n \<Longrightarrow> 0 < bitlen n"
proof (rule ccontr)
  assume n: "0 < n" and "\<not> 0 < bitlen n"
  then have "nat (bitlen n) = 0" by simp
  with bitlen_bounds [OF n] have "n < 1" by simp
  with n show False by simp
qed

lemma binade_bounds:
  assumes "0 < x"
  shows "pow2 (binade x) \<le> x \<and> x < pow2 (binade x + 1)"
proof (cases "1 \<le> x")
  case True
  let ?n = "\<lfloor>x\<rfloor>"
  from True have n: "0 < ?n" by simp
  from bitlen_bounds [OF n] have lo: "2 ^ nat (bitlen ?n - 1) \<le> ?n"
    and hi: "?n < 2 ^ nat (bitlen ?n)" by simp_all
  from n have b: "0 < bitlen ?n" by (rule bitlen_pos)
  have "pow2 (bitlen ?n - 1) = of_int (2 ^ nat (bitlen ?n - 1))"
    using b by (simp add: pow2_of_int)
  also have "\<dots> \<le> of_int ?n" using lo by (simp only: of_int_le_iff)
  also have "\<dots> \<le> x" by simp
  finally have 1: "pow2 (bitlen ?n - 1) \<le> x" .
  from hi have "?n + 1 \<le> 2 ^ nat (bitlen ?n)" by simp
  then have "of_int (?n + 1) \<le> (of_int (2 ^ nat (bitlen ?n)) :: rat)"
    by (simp only: of_int_le_iff)
  moreover have "x < of_int (?n + 1)" by linarith
  ultimately have "x < of_int (2 ^ nat (bitlen ?n))" by simp
  also have "\<dots> = pow2 (bitlen ?n)" using b by (simp add: pow2_of_int)
  finally have 2: "x < pow2 (bitlen ?n - 1 + 1)" by simp
  from True 1 2 show ?thesis by (simp add: binade_def)
next
  case False
  with assms have x1: "x < 1" by simp
  let ?y = "1 / x"
  let ?m = "\<lceil>?y\<rceil> - 1"
  from assms x1 have y1: "1 < ?y" by simp
  then have m: "0 < ?m" by simp
  have my: "of_int ?m < ?y" "?y \<le> of_int (?m + 1)"
    by (simp_all add: ceiling_correct)
  from bitlen_bounds [OF m] have lo: "2 ^ nat (bitlen ?m - 1) \<le> ?m"
    and hi: "?m < 2 ^ nat (bitlen ?m)" by simp_all
  from m have b: "0 < bitlen ?m" by (rule bitlen_pos)
  from hi have "?m + 1 \<le> 2 ^ nat (bitlen ?m)" by simp
  then have "of_int (?m + 1) \<le> (of_int (2 ^ nat (bitlen ?m)) :: rat)"
    by (simp only: of_int_le_iff)
  then have "of_int (?m + 1) \<le> (2 ^ nat (bitlen ?m) :: rat)"
    by (simp only: of_int_power of_int_numeral)
  with my(2) have "?y \<le> 2 ^ nat (bitlen ?m)" by (rule order_trans)
  with assms have "1 \<le> 2 ^ nat (bitlen ?m) * x"
    by (simp add: field_simps)
  then have 1: "pow2 (- bitlen ?m) \<le> x"
    using b by (simp add: pow2_def field_simps)
  from lo have "(of_int (2 ^ nat (bitlen ?m - 1)) :: rat) \<le> of_int ?m"
    by (simp only: of_int_le_iff)
  then have "(2 ^ nat (bitlen ?m - 1) :: rat) \<le> of_int ?m"
    by (simp only: of_int_power of_int_numeral)
  from this my(1) have "2 ^ nat (bitlen ?m - 1) < ?y" by (rule le_less_trans)
  with assms have "2 ^ nat (bitlen ?m - 1) * x < 1"
    by (simp add: field_simps)
  then have "x < 1 / 2 ^ nat (bitlen ?m - 1)"
    by (simp add: field_simps)
  moreover have "pow2 (- bitlen ?m + 1) = 1 / 2 ^ nat (bitlen ?m - 1)"
  proof (cases "bitlen ?m = 1")
    case True
    then show ?thesis by (simp add: pow2_def)
  next
    case False
    with b have "1 < bitlen ?m" by simp
    then show ?thesis by (simp add: pow2_def)
  qed
  ultimately have 2: "x < pow2 (- bitlen ?m + 1)" by simp
  from False 1 2 show ?thesis by (simp add: binade_def)
qed

lemma round_ties_even_error: "\<bar>of_int (round_ties_even y) - y\<bar> \<le> 1 / 2"
proof -
  have "of_int \<lfloor>y\<rfloor> \<le> y" "y < of_int \<lfloor>y\<rfloor> + 1" by linarith+
  then show ?thesis
    by (auto simp: round_ties_even_def Let_def)
qed

lemma round_ties_even_of_int: "round_ties_even (of_int k) = k"
  by (simp add: round_ties_even_def)

lemma round_ties_even_ge: "of_int k \<le> y \<Longrightarrow> k \<le> round_ties_even y"
proof -
  assume "of_int k \<le> y"
  then have "k \<le> \<lfloor>y\<rfloor>" by (simp add: le_floor_iff)
  then show ?thesis by (simp add: round_ties_even_def Let_def)
qed

lemma double_0: "double 0 = 0"
  by (simp add: double_def)

lemma double_normal:
  assumes x: "pow2 (- 1022) \<le> x"
  shows "\<bar>double x - x\<bar> \<le> unit_roundoff * x" and "pow2 (- 1022) \<le> double x"
proof -
  let ?e = "binade x"
  let ?q = "?e - 52"
  from x pow2_pos [of "- 1022"] have pos: "0 < x" by simp
  from binade_bounds [OF pos] have lo: "pow2 ?e \<le> x" and hi: "x < pow2 (?e + 1)" by simp_all
  have e: "- 1022 \<le> ?e"
  proof (rule ccontr)
    assume "\<not> - 1022 \<le> ?e"
    then have "?e + 1 \<le> - 1022" by simp
    from pow2_mono [OF this] hi x show False by simp
  qed
  then have q: "max (?e - 52) (- 1074) = ?q" by simp
  let ?n = "round_ties_even (x / pow2 ?q)"
  from pos have d: "double x = of_int ?n * pow2 ?q"
    by (simp add: double_def q Let_def)
  have "of_int ?n * pow2 ?q - x = (of_int ?n - x / pow2 ?q) * pow2 ?q"
    using pow2_pos [of ?q] by (simp add: field_simps)
  then have "\<bar>of_int ?n * pow2 ?q - x\<bar> = \<bar>of_int ?n - x / pow2 ?q\<bar> * \<bar>pow2 ?q\<bar>"
    by (simp only: abs_mult)
  also have "\<dots> = \<bar>of_int ?n - x / pow2 ?q\<bar> * pow2 ?q"
    using pow2_pos [of ?q] by simp
  also have "\<dots> \<le> 1 / 2 * pow2 ?q"
    using round_ties_even_error [of "x / pow2 ?q"] pow2_pos [of ?q]
    by (simp only: mult_le_cancel_right_pos)
  also have "1 / 2 * pow2 ?q = unit_roundoff * pow2 ?e"
  proof -
    have "pow2 ?e = pow2 (?q + 52)" by simp
    also have "\<dots> = pow2 ?q * 2 ^ 52" by (simp only: pow2_add) (simp add: pow2_def)
    finally show ?thesis by (simp add: unit_roundoff_def)
  qed
  also have "\<dots> \<le> unit_roundoff * x"
    using lo by (simp add: unit_roundoff_def)
  finally show "\<bar>double x - x\<bar> \<le> unit_roundoff * x" by (simp only: d)
  have "pow2 ?e = pow2 52 * pow2 ?q" by (simp only: pow2_add [symmetric]) simp
  with lo have "pow2 52 \<le> x / pow2 ?q"
    using pow2_pos [of ?q] by (simp add: field_simps)
  then have "(of_int (2 ^ 52) :: rat) \<le> x / pow2 ?q" by (simp add: pow2_def)
  then have "2 ^ 52 \<le> ?n" by (rule round_ties_even_ge)
  then have "(of_int (2 ^ 52) :: rat) \<le> of_int ?n" by (simp only: of_int_le_iff)
  then have "pow2 52 \<le> of_int ?n" by (simp add: pow2_def)
  then have "pow2 52 * pow2 ?q \<le> of_int ?n * pow2 ?q"
    using pow2_pos [of ?q] by (simp only: mult_le_cancel_right_pos)
  then have "pow2 ?e \<le> double x"
    by (simp only: d pow2_add [symmetric]) simp
  with pow2_mono [OF e] show "pow2 (- 1022) \<le> double x" by simp
qed

lemma double_bounds:
  assumes "pow2 (- 1022) \<le> x"
  shows "(1 - unit_roundoff) * x \<le> double x" "double x \<le> (1 + unit_roundoff) * x"
  using double_normal(1) [OF assms] by (simp_all add: algebra_simps abs_le_iff)

lemma double_of_int:
  assumes "0 \<le> k" "k < 2 ^ 53"
  shows "double (of_int k) = of_int k"
proof (cases "k = 0")
  case True
  then show ?thesis by (simp add: double_0)
next
  case False
  with assms have k: "1 \<le> k" by simp
  let ?x = "of_int k :: rat"
  let ?e = "binade ?x"
  from k have pos: "0 < ?x" by simp
  from binade_bounds [OF pos] have lo: "pow2 ?e \<le> ?x" and hi: "?x < pow2 (?e + 1)" by simp_all
  have e0: "0 \<le> ?e"
  proof (rule ccontr)
    assume "\<not> 0 \<le> ?e"
    then have "?e + 1 \<le> 0" by simp
    from pow2_mono [OF this] hi have "?x < 1" by (simp add: pow2_def)
    with k show False by simp
  qed
  have e52: "?e \<le> 52"
  proof (rule ccontr)
    assume "\<not> ?e \<le> 52"
    then have "53 \<le> ?e" by simp
    from pow2_mono [OF this] lo have "2 ^ 53 \<le> ?x" by (simp add: pow2_def)
    then have "(of_int (2 ^ 53) :: rat) \<le> of_int k" by simp
    then have "2 ^ 53 \<le> k" by (simp only: of_int_le_iff)
    with assms show False by simp
  qed
  let ?q = "?e - 52"
  from e0 have q: "max (?e - 52) (- 1074) = ?q" by simp
  have inv: "1 / pow2 ?q = pow2 (52 - ?e)"
  proof -
    have "pow2 ?q * pow2 (52 - ?e) = 1" by (simp only: pow2_add [symmetric]) (simp add: pow2_def)
    then show ?thesis using pow2_pos [of ?q] by (simp add: field_simps)
  qed
  have "?x / pow2 ?q = ?x * (1 / pow2 ?q)" by simp
  also have "\<dots> = ?x * pow2 (52 - ?e)" by (simp only: inv)
  also have "\<dots> = of_int (k * 2 ^ nat (52 - ?e))" using e52 by (simp add: pow2_of_int)
  finally have "round_ties_even (?x / pow2 ?q) = k * 2 ^ nat (52 - ?e)"
    by (simp only: round_ties_even_of_int)
  then have "double ?x = of_int (k * 2 ^ nat (52 - ?e)) * pow2 ?q"
    using pos by (simp add: double_def q Let_def)
  also have "\<dots> = ?x * (pow2 (52 - ?e) * pow2 ?q)" using e52 by (simp add: pow2_of_int)
  also have "pow2 (52 - ?e) * pow2 ?q = 1" by (simp only: pow2_add [symmetric]) (simp add: pow2_def)
  finally show ?thesis by simp
qed

lemma double_neg: "double (- x) = - double x"
  by (simp add: double_def Let_def)

section \<open>Properties of the calculator\<close>

lemma foldl_plus_sum_list:
  fixes a :: number
  shows "foldl (\<lambda>s x. s + f x) a xs = a + sum_list (map f xs)"
  by (induction xs arbitrary: a) (simp_all add: add.assoc)

lemma mset_object_values: "mset (object_values obj) = mset (map snd obj)"
proof -
  have "mset (sort_key (\<lambda>kv. Number_of_digits (fst kv))
               (filter (\<lambda>kv. is_array_index (fst kv)) obj)
             @ filter (\<lambda>kv. \<not> is_array_index (fst kv)) obj) = mset obj"
    by simp
  then have "image_mset snd (mset (sort_key (\<lambda>kv. Number_of_digits (fst kv))
               (filter (\<lambda>kv. is_array_index (fst kv)) obj)
             @ filter (\<lambda>kv. \<not> is_array_index (fst kv)) obj)) = image_mset snd (mset obj)"
    by (simp only:)
  then show ?thesis
    by (simp only: object_values_def mset_map)
qed

lemma set_object_values: "set (object_values obj) = snd ` set obj"
  using arg_cong [OF mset_object_values [of obj], of set_mset] by simp

lemma sum_list_object_values:
  fixes obj :: "(string \<times> number) list"
  shows "sum_list (object_values obj) = sum_list (map snd obj)"
  using arg_cong [OF mset_object_values [of obj], of sum_mset] by (simp only: sum_mset_sum_list)

lemma object_values_plain:
  "\<forall>kv\<in>set obj. \<not> is_array_index (fst kv) \<Longrightarrow> object_values obj = map snd obj"
  by (simp add: object_values_def filter_empty_conv)


lemma calculations_restAmount:
  "restAmount (calculations T pa ps R) = max 0 (T - sum_list (object_values pa))"
  using foldl_plus_sum_list [of "\<lambda>x. x" 0 "object_values pa"]
  by (simp add: calculations_def Let_def)

lemma calculations_breakdown_commission:
  "map b_commission (breakdown (calculations T pa ps R)) =
     map (\<lambda>p. amount_or_0 pa (p_id p) * p_percentage p / 100) ps"
  by (simp add: calculations_def Let_def)

lemma calculations_totalCommission:
  "totalCommission (calculations T pa ps R) =
     sum_list (map (\<lambda>p. amount_or_0 pa (p_id p) * p_percentage p / 100) ps)
       + restAmount (calculations T pa ps R) * R / 100"
proof -
  let ?c = "calculations T pa ps R"
  have "totalCommission ?c =
      foldl (\<lambda>s item. s + b_commission item) 0 (breakdown ?c) + restAmount ?c * (R / 100)"
    by (simp add: calculations_def Let_def)
  also have "foldl (\<lambda>s item. s + b_commission item) 0 (breakdown ?c) =
      sum_list (map b_commission (breakdown ?c))"
    by (simp add: foldl_plus_sum_list)
  finally show ?thesis
    by (simp add: calculations_breakdown_commission)
qed

lemma unit_roundoff_range: "0 < unit_roundoff" "unit_roundoff < 1"
  by (simp_all add: unit_roundoff_def)

lemma within_roundings_0: "within_roundings k 0 0"
  by (simp add: within_roundings_def)

lemma within_roundings_nonneg:
  assumes "within_roundings k v e"
  shows "0 \<le> v"
proof -
  from unit_roundoff_range have "0 \<le> (1 - unit_roundoff) ^ k" by simp
  with assms have "0 \<le> (1 - unit_roundoff) ^ k * e"
    by (simp add: within_roundings_def)
  with assms show ?thesis by (simp add: within_roundings_def)
qed

lemma within_roundings_zero:
  assumes "within_roundings k 0 e"
  shows "e = 0"
proof -
  from unit_roundoff_range have p: "0 < (1 - unit_roundoff) ^ k" by simp
  from assms have "(1 - unit_roundoff) ^ k * e \<le> 0" "0 \<le> e"
    by (simp_all add: within_roundings_def)
  with p show ?thesis by (simp add: mult_le_0_iff)
qed

lemma within_roundings_weaken:
  assumes v: "within_roundings k v e" and k: "k \<le> k'"
  shows "within_roundings k' v e"
proof -
  from v have e: "0 \<le> e" by (simp add: within_roundings_def)
  from unit_roundoff_range have "(1 - unit_roundoff) ^ k' \<le> (1 - unit_roundoff) ^ k"
    using k by (intro power_decreasing) simp_all
  from this e have lo: "(1 - unit_roundoff) ^ k' * e \<le> (1 - unit_roundoff) ^ k * e"
    by (rule mult_right_mono)
  from unit_roundoff_range have "(1 + unit_roundoff) ^ k \<le> (1 + unit_roundoff) ^ k'"
    using k by (intro power_increasing) simp_all
  from this e have hi: "(1 + unit_roundoff) ^ k * e \<le> (1 + unit_roundoff) ^ k' * e"
    by (rule mult_right_mono)
  from v lo hi show ?thesis by (simp add: within_roundings_def)
qed

text \<open>One rounding of a value that is zero or normal adds one factor.\<close>

lemma within_roundings_double:
  assumes x: "within_roundings k x e"
  shows "within_roundings (Suc k) (double x) e"
proof (cases "x = 0")
  case True
  with x within_roundings_zero [of k e] show ?thesis
    by (simp add: double_0 within_roundings_0)
next
  case False
  with x have n: "pow2 (- 1022) \<le> x" and e: "0 \<le> e"
    and lo: "(1 - unit_roundoff) ^ k * e \<le> x" and hi: "x \<le> (1 + unit_roundoff) ^ k * e"
    by (simp_all add: within_roundings_def)
  from unit_roundoff_range have u: "0 \<le> 1 - unit_roundoff" "0 \<le> 1 + unit_roundoff" by simp_all
  from lo u(1) have "(1 - unit_roundoff) * ((1 - unit_roundoff) ^ k * e) \<le> (1 - unit_roundoff) * x"
    by (rule mult_left_mono)
  with double_bounds(1) [OF n] have 1: "(1 - unit_roundoff) ^ Suc k * e \<le> double x"
    by (simp add: mult.assoc)
  from hi u(2) have "(1 + unit_roundoff) * x \<le> (1 + unit_roundoff) * ((1 + unit_roundoff) ^ k * e)"
    by (rule mult_left_mono)
  with double_bounds(2) [OF n] have 2: "double x \<le> (1 + unit_roundoff) ^ Suc k * e"
    by (simp add: mult.assoc)
  from e 1 2 double_normal(2) [OF n] show ?thesis
    by (simp add: within_roundings_def)
qed

lemma within_roundings_add:
  assumes v: "within_roundings k v e" and w: "within_roundings k w f"
  shows "within_roundings k (v + w) (e + f)"
proof -
  from within_roundings_nonneg [OF v] within_roundings_nonneg [OF w]
  have nn: "0 \<le> v" "0 \<le> w" .
  from v w have n: "v = 0 \<or> pow2 (- 1022) \<le> v" "w = 0 \<or> pow2 (- 1022) \<le> w"
    by (simp_all add: within_roundings_def)
  with nn have "v + w = 0 \<or> pow2 (- 1022) \<le> v + w" by auto
  with v w show ?thesis
    by (simp add: within_roundings_def distrib_left add_mono)
qed

lemma whole_amount_Ints: "whole_amount x \<longleftrightarrow> x \<in> \<int> \<and> 0 \<le> x \<and> x < 2 ^ 53"
  by (auto simp: whole_amount_def Ints_def)

lemma whole_amount_cases: "whole_amount a \<Longrightarrow> a = 0 \<or> 1 \<le> a"
proof -
  assume a: "whole_amount a"
  then have "a \<in> \<int>" and a0: "0 \<le> a" by (simp_all add: whole_amount_Ints)
  then obtain k where k: "a = of_int k" by (auto elim: Ints_cases)
  with a0 have "k = 0 \<or> 1 \<le> k" by auto
  with k show ?thesis by auto
qed

lemma within_roundings_mult:
  assumes a: "whole_amount a" and v: "within_roundings k v e"
  shows "within_roundings k (a * v) (a * e)"
proof -
  from a have a0: "0 \<le> a" by (simp add: whole_amount_Ints)
  from within_roundings_nonneg [OF v] have v0: "0 \<le> v" .
  from v have e: "0 \<le> e" and lo: "(1 - unit_roundoff) ^ k * e \<le> v"
    and hi: "v \<le> (1 + unit_roundoff) ^ k * e" and n: "v = 0 \<or> pow2 (- 1022) \<le> v"
    by (simp_all add: within_roundings_def)
  from lo a0 have "a * ((1 - unit_roundoff) ^ k * e) \<le> a * v" by (rule mult_left_mono)
  then have 1: "(1 - unit_roundoff) ^ k * (a * e) \<le> a * v" by (simp add: mult.left_commute)
  from hi a0 have "a * v \<le> a * ((1 + unit_roundoff) ^ k * e)" by (rule mult_left_mono)
  then have 2: "a * v \<le> (1 + unit_roundoff) ^ k * (a * e)" by (simp add: mult.left_commute)
  have 3: "a * v = 0 \<or> pow2 (- 1022) \<le> a * v"
  proof (cases "a = 0 \<or> v = 0")
    case True
    then show ?thesis by auto
  next
    case False
    with whole_amount_cases [OF a] n have "1 \<le> a" "pow2 (- 1022) \<le> v" by simp_all
    with v0 have "1 * v \<le> a * v" by (intro mult_right_mono) simp_all
    with \<open>pow2 (- 1022) \<le> v\<close> show ?thesis by simp
  qed
  from a0 e 1 2 3 show ?thesis by (simp add: within_roundings_def)
qed

lemma within_roundings_rate:
  assumes "rate_in_range r"
  shows "within_roundings 0 (r / 100) (r / 100)"
proof (cases "r = 0")
  case True
  then show ?thesis by (simp add: within_roundings_0)
next
  case False
  with assms have r: "1 / 2 ^ 900 \<le> r" by (simp add: rate_in_range_def)
  have "pow2 (- 1022) \<le> (1 / 2 ^ 900) / 100" by (simp add: pow2_def)
  also from r have "\<dots> \<le> r / 100" by (simp add: divide_right_mono)
  finally have "pow2 (- 1022) \<le> r / 100" .
  moreover from this pow2_pos [of "- 1022"] have "0 \<le> r / 100" by simp
  ultimately show ?thesis by (simp add: within_roundings_def)
qed

text \<open>A commission \<open>amount * (percentage / 100)\<close> carries two roundings.\<close>

lemma commission_within_roundings:
  assumes "whole_amount a" "rate_in_range r"
  shows "within_roundings 2 (double (a * double (r / 100))) (a * r / 100)"
proof -
  from within_roundings_double [OF within_roundings_rate [OF assms(2)]]
  have "within_roundings (Suc 0) (double (r / 100)) (r / 100)" .
  from within_roundings_double [OF within_roundings_mult [OF assms(1) this]]
  show ?thesis by (simp add: numeral_2_eq_2)
qed

text \<open>The running sum of \<open>n\<close> commissions carries \<open>n + 2\<close> roundings.\<close>

lemma sum_within_roundings:
  assumes "\<forall>x\<in>set xs. within_roundings 2 (c x) (t x)"
  shows "within_roundings (length xs + 2) (foldl (\<lambda>s x. double (s + c x)) 0 xs)
           (sum_list (map t xs))"
  using assms
proof (induction xs rule: rev_induct)
  case Nil
  show ?case by (simp add: within_roundings_0)
next
  case (snoc x xs)
  then have s: "within_roundings (length xs + 2) (foldl (\<lambda>s x. double (s + c x)) 0 xs)
      (sum_list (map t xs))"
    and x: "within_roundings 2 (c x) (t x)" by simp_all
  from within_roundings_weaken [OF x, of "length xs + 2"]
  have "within_roundings (length xs + 2) (c x) (t x)" by simp
  from within_roundings_double [OF within_roundings_add [OF s this]]
  show ?case by simp
qed

text \<open>Whole amounts add and subtract without rounding.\<close>

lemma double_whole:
  assumes "x \<in> \<int>" "\<bar>x\<bar> < 2 ^ 53"
  shows "double x = x"
proof -
  from assms(1) obtain k where k: "x = of_int k" by (rule Ints_cases)
  from assms(2) have "\<bar>(of_int k :: rat)\<bar> < of_int (2 ^ 53)" by (simp add: k)
  then have small: "\<bar>k\<bar> < 2 ^ 53" by (simp only: of_int_abs [symmetric] of_int_less_iff)
  show ?thesis
  proof (cases "0 \<le> k")
    case True
    with small double_of_int [of k] show ?thesis by (simp add: k)
  next
    case False
    with small double_of_int [of "- k"] have "double (- of_int k) = - of_int k" by simp
    then show ?thesis by (simp add: k double_neg)
  qed
qed

lemma sum_list_whole:
  assumes "\<forall>v\<in>set vs. whole_amount v"
  shows "sum_list vs \<in> \<int> \<and> 0 \<le> sum_list vs"
  using assms by (induction vs) (simp_all add: whole_amount_Ints)

lemma foldl_double_whole:
  assumes "\<forall>v\<in>set vs. whole_amount v" "sum_list vs < 2 ^ 53"
  shows "foldl (\<lambda>s a. double (s + a)) 0 vs = sum_list vs"
  using assms
proof (induction vs rule: rev_induct)
  case Nil
  show ?case by simp
next
  case (snoc v vs)
  then have all: "\<forall>v\<in>set vs. whole_amount v" and v: "whole_amount v"
    and lt: "sum_list vs + v < 2 ^ 53" by simp_all
  from v have v0: "0 \<le> v" by (simp add: whole_amount_Ints)
  with lt have "sum_list vs < 2 ^ 53" by simp
  with snoc.IH all have f: "foldl (\<lambda>s a. double (s + a)) 0 vs = sum_list vs" by simp
  from snoc.prems(1) have "\<forall>x\<in>set (vs @ [v]). whole_amount x" .
  from sum_list_whole [OF this]
  have w: "sum_list vs + v \<in> \<int>" "0 \<le> sum_list vs + v" by simp_all
  with lt have "double (sum_list vs + v) = sum_list vs + v"
    by (intro double_whole) simp_all
  with f show ?case by simp
qed

lemma calculations_double_restAmount:
  assumes T: "whole_amount T" and amounts: "\<forall>v\<in>snd ` set pa. whole_amount v"
    and small: "sum_list (map snd pa) < 2 ^ 53"
  shows "restAmount (calculations_double T pa ps R) = max 0 (T - sum_list (map snd pa))"
    and "whole_amount (restAmount (calculations_double T pa ps R))"
proof -
  let ?S = "sum_list (map snd pa)"
  from amounts have all: "\<forall>v\<in>set (object_values pa). whole_amount v"
    by (simp only: set_object_values)
  from small have "sum_list (object_values pa) < 2 ^ 53"
    by (simp only: sum_list_object_values)
  from foldl_double_whole [OF all this]
  have S: "foldl (\<lambda>s a. double (s + a)) 0 (object_values pa) = ?S"
    by (simp only: sum_list_object_values)
  from amounts have "\<forall>v\<in>set (map snd pa). whole_amount v" by simp
  from sum_list_whole [OF this] have wS: "?S \<in> \<int>" "0 \<le> ?S" by simp_all
  from T have wT: "T \<in> \<int>" "0 \<le> T" "T < 2 ^ 53" by (simp_all add: whole_amount_Ints)
  from wT(1) wS(1) have wD: "T - ?S \<in> \<int>" by (rule Ints_diff)
  from wT wS small have "\<bar>T - ?S\<bar> < 2 ^ 53" by (simp add: abs_less_iff)
  with wD have D: "double (T - ?S) = T - ?S" by (rule double_whole)
  show r: "restAmount (calculations_double T pa ps R) = max 0 (T - ?S)"
    by (simp add: calculations_double_def Let_def S D)
  have "max 0 (T - ?S) \<in> \<int>"
    using wD by (simp add: max_def)
  moreover have "max 0 (T - ?S) < 2 ^ 53" using wT wS by (simp add: max_def)
  ultimately show "whole_amount (restAmount (calculations_double T pa ps R))"
    by (simp add: r whole_amount_Ints)
qed

lemma whole_amount_or_0:
  assumes "\<forall>v\<in>snd ` set pa. whole_amount v"
  shows "whole_amount (amount_or_0 pa k)"
proof (cases "map_of pa k")
  case None
  then show ?thesis by (simp add: amount_or_0_def whole_amount_Ints)
next
  case (Some v)
  then have "(k, v) \<in> set pa" by (rule map_of_SomeD)
  then have "v \<in> snd ` set pa" by force
  with assms have "whole_amount v" by (rule bspec)
  with Some show ?thesis by (simp add: amount_or_0_def)
qed

lemma calculations_double_total:
  assumes T: "whole_amount T" and amounts: "\<forall>v\<in>snd ` set pa. whole_amount v"
    and small: "sum_list (map snd pa) < 2 ^ 53"
    and rates: "\<forall>p\<in>set ps. rate_in_range (p_percentage p)" and R: "rate_in_range R"
  shows "within_roundings (length ps + 3) (totalCommission (calculations_double T pa ps R))
           (sum_list (map (\<lambda>p. amount_or_0 pa (p_id p) * p_percentage p / 100) ps)
            + restAmount (calculations_double T pa ps R) * R / 100)"
proof -
  let ?c = "\<lambda>p. double (amount_or_0 pa (p_id p) * double (p_percentage p / 100))"
  let ?t = "\<lambda>p. amount_or_0 pa (p_id p) * p_percentage p / 100"
  let ?rest = "restAmount (calculations_double T pa ps R)"
  let ?rc = "double (?rest * double (R / 100))"
  have "\<forall>p\<in>set ps. within_roundings 2 (?c p) (?t p)"
    using rates whole_amount_or_0 [OF amounts] by (simp add: commission_within_roundings)
  from sum_within_roundings [of ps ?c ?t, OF this]
  have s: "within_roundings (length ps + 2) (foldl (\<lambda>s p. double (s + ?c p)) 0 ps)
      (sum_list (map ?t ps))" .
  from commission_within_roundings [OF calculations_double_restAmount(2) [OF T amounts small] R]
  have "within_roundings 2 ?rc (?rest * R / 100)" .
  from within_roundings_weaken [OF this, of "length ps + 2"]
  have "within_roundings (length ps + 2) ?rc (?rest * R / 100)" by simp
  from within_roundings_double [OF within_roundings_add [OF s this]]
  have "within_roundings (length ps + 3)
      (double (foldl (\<lambda>s p. double (s + ?c p)) 0 ps + ?rc))
      (sum_list (map ?t ps) + ?rest * R / 100)"
    by (simp add: eval_nat_numeral)
  moreover have "totalCommission (calculations_double T pa ps R) =
      double (foldl (\<lambda>s p. double (s + ?c p)) 0 ps + ?rc)"
    by (simp add: calculations_double_def Let_def foldl_map)
  ultimately show ?thesis by (simp only:)
qed

lemma calculations_double_breakdown:
  assumes amounts: "\<forall>v\<in>snd ` set pa. whole_amount v"
    and rates: "\<forall>p\<in>set ps. rate_in_range (p_percentage p)"
  shows "list_all2 (\<lambda>item p.
            within_roundings 2 (b_commission item) (amount_or_0 pa (p_id p) * p_percentage p / 100))
          (breakdown (calculations_double T pa ps R)) ps"
  using rates whole_amount_or_0 [OF amounts]
  by (simp add: calculations_double_def Let_def list_all2_map1 list_all2_same
      commission_within_roundings)

lemma ex_rounded:
  "calculations_double 6 [(''a'', 3)]
     [\<lparr>p_id = ''a'', p_name = ''A'', p_percentage = 10, p_color = ''red''\<rparr>] 10 =
   \<lparr> breakdown =
       [\<lparr>b_name = ''A'', b_label = ''A'', b_amount = 3, b_percentage = 10,
         b_commission = 5404319552844596 / 2 ^ 54, b_color = ''red''\<rparr>],
     restAmount = 3, restCommission = 5404319552844596 / 2 ^ 54,
     totalCommission = 5404319552844596 / 2 ^ 53 \<rparr>"
  by code_simp

lemma ex_nearest: "double (3 / 5) = 5404319552844595 / 2 ^ 53"
  by code_simp

lemma ex_exact:
  "calculations_double 1000 [(''a'', 300), (''b'', 200)]
     [\<lparr>p_id = ''a'', p_name = ''A'', p_percentage = 10, p_color = ''red''\<rparr>,
      \<lparr>p_id = ''b'', p_name = ''B'', p_percentage = 20, p_color = ''blue''\<rparr>] 25 =
   \<lparr> breakdown =
       [\<lparr>b_name = ''A'', b_label = ''A'', b_amount = 300, b_percentage = 10,
         b_commission = 30, b_color = ''red''\<rparr>,
        \<lparr>b_name = ''B'', b_label = ''B'', b_amount = 200, b_percentage = 20,
         b_commission = 40, b_color = ''blue''\<rparr>],
     restAmount = 500, restCommission = 125, totalCommission = 195 \<rparr>"
  by code_simp

text \<open>
  C1, as claimed: the calculator's total commission equals the sum of the categories'
  amount \<open>\<times>\<close> percentage \<open>/ 100\<close> plus rest amount \<open>\<times> R / 100\<close>, for every input. With an
  invoice total of 6, the amount 3 allocated to one category at 10 percent and a rest
  percentage of 10, the calculator computes \<open>3 * (10 / 100)\<close> in binary floating point: the
  category's commission and the rest commission are 0.30000000000000004 each and the
  total commission is 0.6000000000000001, where the claimed sum is 3/5; the total is not
  even the number nearest to 3/5.
\<close>

theorem C1_rounding_counterexample:
  "map b_commission (breakdown (calculations_double 6 [(''a'', 3)]
        [\<lparr>p_id = ''a'', p_name = ''A'', p_percentage = 10, p_color = ''red''\<rparr>] 10))
     = [5404319552844596 / 2 ^ 54]
   \<and> restAmount (calculations_double 6 [(''a'', 3)]
        [\<lparr>p_id = ''a'', p_name = ''A'', p_percentage = 10, p_color = ''red''\<rparr>] 10) = 3
   \<and> totalCommission (calculations_double 6 [(''a'', 3)]
        [\<lparr>p_id = ''a'', p_name = ''A'', p_percentage = 10, p_color = ''red''\<rparr>] 10)
     = 5404319552844596 / 2 ^ 53
   \<and> totalCommission (calculations_double 6 [(''a'', 3)]
        [\<lparr>p_id = ''a'', p_name = ''A'', p_percentage = 10, p_color = ''red''\<rparr>] 10)
     \<noteq> 3 * 10 / 100 + 3 * 10 / 100
   \<and> totalCommission (calculations_double 6 [(''a'', 3)]
        [\<lparr>p_id = ''a'', p_name = ''A'', p_percentage = 10, p_color = ''red''\<rparr>] 10)
     \<noteq> double (3 * 10 / 100 + 3 * 10 / 100)"
  by (simp add: ex_rounded ex_nearest)

text \<open>
  C1, amended. For a whole invoice total and whole allocated amounts (non-negative
  integers, their sum below \<open>2^53\<close>) and percentages in range, the calculator's rest
  amount is exactly \<open>max(0, T - S)\<close>, and its total commission is the sum of the
  categories' amount \<open>\<times>\<close> percentage \<open>/ 100\<close> plus rest amount \<open>\<times> R / 100\<close> up to the
  rounding of binary floating point: with \<open>n\<close> categories it lies between
  \<open>(1 - 2^-53)^(n+3)\<close> times and \<open>(1 + 2^-53)^(n+3)\<close> times that sum, and every
  category's commission lies within two roundings of its own term. For total 1000,
  A = 300 at 10 percent, B = 200 at 20 percent and R = 25 the calculator returns exactly
  the commissions 30 and 40, rest amount 500, rest commission 125 and total commission
  195.
\<close>

theorem C1_total_commission_rounded:
  assumes "whole_amount T" and "\<forall>v\<in>snd ` set pa. whole_amount v"
    and "sum_list (map snd pa) < 2 ^ 53"
    and "\<forall>p\<in>set ps. rate_in_range (p_percentage p)" and "rate_in_range R"
  shows "restAmount (calculations_double T pa ps R) = max 0 (T - sum_list (map snd pa))
       \<and> (1 - 1 / 2 ^ 53) ^ (length ps + 3)
           * (sum_list (map (\<lambda>p. amount_or_0 pa (p_id p) * p_percentage p / 100) ps)
              + restAmount (calculations_double T pa ps R) * R / 100)
         \<le> totalCommission (calculations_double T pa ps R)
       \<and> totalCommission (calculations_double T pa ps R)
         \<le> (1 + 1 / 2 ^ 53) ^ (length ps + 3)
           * (sum_list (map (\<lambda>p. amount_or_0 pa (p_id p) * p_percentage p / 100) ps)
              + restAmount (calculations_double T pa ps R) * R / 100)
       \<and> list_all2 (\<lambda>item p.
             (1 - 1 / 2 ^ 53) ^ 2 * (amount_or_0 pa (p_id p) * p_percentage p / 100)
               \<le> b_commission item
             \<and> b_commission item
               \<le> (1 + 1 / 2 ^ 53) ^ 2 * (amount_or_0 pa (p_id p) * p_percentage p / 100))
           (breakdown (calculations_double T pa ps R)) ps
       \<and> calculations_double 1000 [(''a'', 300), (''b'', 200)]
           [\<lparr>p_id = ''a'', p_name = ''A'', p_percentage = 10, p_color = ''red''\<rparr>,
            \<lparr>p_id = ''b'', p_name = ''B'', p_percentage = 20, p_color = ''blue''\<rparr>] 25 =
         \<lparr> breakdown =
             [\<lparr>b_name = ''A'', b_label = ''A'', b_amount = 300, b_percentage = 10,
               b_commission = 30, b_color = ''red''\<rparr>,
              \<lparr>b_name = ''B'', b_label = ''B'', b_amount = 200, b_percentage = 20,
               b_commission = 40, b_color = ''blue''\<rparr>],
           restAmount = 500, restCommission = 125, totalCommission = 195 \<rparr>"
proof (intro conjI)
  show "restAmount (calculations_double T pa ps R) = max 0 (T - sum_list (map snd pa))"
    using assms(1-3) by (rule calculations_double_restAmount(1))
  from calculations_double_total [OF assms]
  show "(1 - 1 / 2 ^ 53) ^ (length ps + 3)
           * (sum_list (map (\<lambda>p. amount_or_0 pa (p_id p) * p_percentage p / 100) ps)
              + restAmount (calculations_double T pa ps R) * R / 100)
         \<le> totalCommission (calculations_double T pa ps R)"
    and "totalCommission (calculations_double T pa ps R)
         \<le> (1 + 1 / 2 ^ 53) ^ (length ps + 3)
           * (sum_list (map (\<lambda>p. amount_or_0 pa (p_id p) * p_percentage p / 100) ps)
              + restAmount (calculations_double T pa ps R) * R / 100)"
    by (simp_all only: within_roundings_def unit_roundoff_def)
  from calculations_double_breakdown [OF assms(2) assms(4), of T R]
  show "list_all2 (\<lambda>item p.
             (1 - 1 / 2 ^ 53) ^ 2 * (amount_or_0 pa (p_id p) * p_percentage p / 100)
               \<le> b_commission item
             \<and> b_commission item
               \<le> (1 + 1 / 2 ^ 53) ^ 2 * (amount_or_0 pa (p_id p) * p_percentage p / 100))
           (breakdown (calculations_double T pa ps R)) ps"
    by (rule list_all2_mono) (simp add: within_roundings_def unit_roundoff_def)
  show "calculations_double 1000 [(''a'', 300), (''b'', 200)]
           [\<lparr>p_id = ''a'', p_name = ''A'', p_percentage = 10, p_color = ''red''\<rparr>,
            \<lparr>p_id = ''b'', p_name = ''B'', p_percentage = 20, p_color = ''blue''\<rparr>] 25 =
         \<lparr> breakdown =
             [\<lparr>b_name = ''A'', b_label = ''A'', b_amount = 300, b_percentage = 10,
               b_commission = 30, b_color = ''red''\<rparr>,
              \<lparr>b_name = ''B'', b_label = ''B'', b_amount = 200, b_percentage = 20,
               b_commission = 40, b_color = ''blue''\<rparr>],
           restAmount = 500, restCommission = 125, totalCommission = 195 \<rparr>"
    by (rule ex_exact)
qed

theorem C1_total_commission_rounded_witness:
  "restAmount (calculations_double 6 [(''a'', 3)]
        [\<lparr>p_id = ''a'', p_name = ''A'', p_percentage = 10, p_color = ''red''\<rparr>] 10) = 3
   \<and> (1 - 1 / 2 ^ 53) ^ 4 * (3 / 5)
      \<le> totalCommission (calculations_double 6 [(''a'', 3)]
        [\<lparr>p_id = ''a'', p_name = ''A'', p_percentage = 10, p_color = ''red''\<rparr>] 10)
   \<and> totalCommission (calculations_double 6 [(''a'', 3)]
        [\<lparr>p_id = ''a'', p_name = ''A'', p_percentage = 10, p_color = ''red''\<rparr>] 10)
      \<le> (1 + 1 / 2 ^ 53) ^ 4 * (3 / 5)"
proof -
  let ?c = "calculations_double 6 [(''a'', 3)]
        [\<lparr>p_id = ''a'', p_name = ''A'', p_percentage = 10, p_color = ''red''\<rparr>] 10"
  have "whole_amount 6" "\<forall>v\<in>snd ` set [(''a'', 3 :: number)]. whole_amount v"
    "sum_list (map snd [(''a'', 3 :: number)]) < 2 ^ 53"
    "\<forall>p\<in>set [\<lparr>p_id = ''a'', p_name = ''A'', p_percentage = 10, p_color = ''red''\<rparr>].
       rate_in_range (p_percentage p)"
    "rate_in_range 10"
    by (simp_all add: whole_amount_Ints rate_in_range_def)
  note bound = C1_total_commission_rounded [OF this]
  from bound [THEN conjunct1] have r: "restAmount ?c = 3" by simp
  have e: "sum_list (map (\<lambda>p. amount_or_0 [(''a'', 3)] (p_id p) * p_percentage p / 100)
             [\<lparr>p_id = ''a'', p_name = ''A'', p_percentage = 10, p_color = ''red''\<rparr>])
           + restAmount ?c * 10 / 100 = 3 / 5"
    by (simp add: r amount_or_0_def)
  from bound [THEN conjunct2, THEN conjunct1]
  have lo: "(1 - 1 / 2 ^ 53) ^ 4 * (3 / 5) \<le> totalCommission ?c"
    by (simp only: e) simp
  from bound [THEN conjunct2, THEN conjunct2, THEN conjunct1]
  have hi: "totalCommission ?c \<le> (1 + 1 / 2 ^ 53) ^ 4 * (3 / 5)"
    by (simp only: e) simp
  from r lo hi show ?thesis by (simp only: simp_thms)
qed



section \<open>Properties of the store operations\<close>

lemma sum_foldl:
  fixes f :: "'a \<Rightarrow> number"
  shows "foldl (\<lambda>s x. s + f x) 0 xs = sum_list (map f xs)"
  by (simp add: foldl_plus_sum_list)

lemma filter_key_unique:
  "distinct (map f xs) \<Longrightarrow> x \<in> set xs \<Longrightarrow> filter (\<lambda>y. f y = f x) xs = [x]"
proof (induction xs)
  case Nil
  then show ?case by simp
next
  case (Cons a xs)
  show ?case
  proof (cases "a = x")
    case True
    with Cons.prems have "\<forall>y\<in>set xs. f y \<noteq> f x" by (auto simp: image_iff)
    then have "filter (\<lambda>y. f y = f x) xs = []" by (simp add: filter_empty_conv)
    with True show ?thesis by simp
  next
    case False
    with Cons.prems have "x \<in> set xs" "f a \<noteq> f x" by auto
    with Cons show ?thesis by simp
  qed
qed

lemma filter_key_update:
  assumes "distinct (map f xs)" "x \<in> set xs" "\<And>y. f (g y) = f y"
  shows "filter (\<lambda>y. f y = f x) (map (\<lambda>y. if f y = f x then g y else y) xs) = [g x]"
proof -
  have "filter (\<lambda>y. f y = f x) (map (\<lambda>y. if f y = f x then g y else y) xs)
      = map (\<lambda>y. if f y = f x then g y else y) (filter (\<lambda>y. f y = f x) xs)"
    by (simp add: filter_map comp_def assms(3) if_distrib [of f] cong: if_cong)
  then show ?thesis using filter_key_unique [OF assms(1,2)] by simp
qed

lemma insert_products_invoices_tbl [simp]:
  "invoices_tbl (insert_products b rows db) = invoices_tbl db"
  by (simp add: insert_products_def)

lemma maybeSingle_simps [simp]: "maybeSingle [] = None" "maybeSingle [x] = Some x"
  by (simp_all add: maybeSingle_def)

lemma single_row_simps [simp]: "single_row [] = None" "single_row [x] = Some x"
  by (simp_all add: single_row_def)

lemma ex_invoice_simps:
  "inv_id ex_invoice = 0" "ncf ex_invoice = ''B010000001''" "total_amount ex_invoice = 100"
  "rest_percentage ex_invoice = 0" "products ex_invoice = [ex_line]"
  "invoice_date ex_invoice = ''2024-03-01''"
  by (simp_all add: ex_invoice_def ex_row_def InvoiceRow.defs Invoice.defs)

lemma ex_invoice_more:
  "total_commission ex_invoice = 5" "rest_amount ex_invoice = 50"
  "rest_commission ex_invoice = 0"
  by (simp_all add: ex_invoice_def ex_row_def InvoiceRow.defs Invoice.defs)

text \<open>
  An update succeeds when the invoice is in the store under a unique id, no other
  invoice carries the new NCF, and the update call itself does not fail.
\<close>

lemma updateInvoice_success:
  assumes ids: "distinct (map inv_id (invoices_tbl db))"
    and r: "r \<in> set (invoices_tbl db)"
    and others: "\<forall>x\<in>set (invoices_tbl db). ncf x = n \<longrightarrow> inv_id x = inv_id r"
    and ok: "\<not> up_update_fails faults"
  shows "returned (updateInvoice faults db (inv_id r) n d T ra rp rc tc ps) =
           Some (r \<lparr> ncf := n, invoice_date := d, total_amount := T,
                     rest_amount := ra, rest_percentage := rp,
                     rest_commission := rc, total_commission := tc \<rparr>)"
    and "toasts (updateInvoice faults db (inv_id r) n d T ra rp rc tc ps) =
           [ToastSuccess ''Factura actualizada correctamente'']"
    and "invoices_tbl (store (updateInvoice faults db (inv_id r) n d T ra rp rc tc ps)) =
           map (\<lambda>x. if inv_id x = inv_id r
                 then x \<lparr> ncf := n, invoice_date := d, total_amount := T,
                     rest_amount := ra, rest_percentage := rp,
                     rest_commission := rc, total_commission := tc \<rparr> else x) (invoices_tbl db)"
proof -
  let ?upd = "\<lambda>x. x \<lparr> ncf := n, invoice_date := d, total_amount := T,
                     rest_amount := ra, rest_percentage := rp,
                     rest_commission := rc, total_commission := tc \<rparr>"
  have no_other: "filter (\<lambda>x. ncf x = n \<and> inv_id x \<noteq> inv_id r) (invoices_tbl db) = []"
    using others by (auto simp: filter_empty_conv)
  have one: "filter (\<lambda>x. inv_id x = inv_id r)
               (map (\<lambda>x. if inv_id x = inv_id r then ?upd x else x) (invoices_tbl db)) = [?upd r]"
    using filter_key_update [of inv_id "invoices_tbl db" r ?upd, OF ids r] by simp
  show "returned (updateInvoice faults db (inv_id r) n d T ra rp rc tc ps) = Some (?upd r)"
    using ok by (simp add: updateInvoice_def Let_def no_other one)
  show "toasts (updateInvoice faults db (inv_id r) n d T ra rp rc tc ps) =
           [ToastSuccess ''Factura actualizada correctamente'']"
    using ok by (simp add: updateInvoice_def Let_def no_other one)
  show "invoices_tbl (store (updateInvoice faults db (inv_id r) n d T ra rp rc tc ps)) =
           map (\<lambda>x. if inv_id x = inv_id r then ?upd x else x) (invoices_tbl db)"
    using ok by (simp add: updateInvoice_def Let_def no_other one)
qed

text \<open>
  C3. The claim: every invoice written to the store, on create and on update, has
  \<open>rest_amount = max(0, total_amount - sum of its line-item amounts)\<close>. The edit path
  computes \<open>totalAmount - productsTotal\<close> without the \<open>Math.max(0, ...)\<close> of the calculator:
  the invoice of total 100 with one line item of 50 at 10 percent, edited to a line item
  of 150 and submitted, is stored with \<open>rest_amount = -50\<close> next to its line item of 150.
\<close>

theorem C3_edit_stores_negative_rest:
  "map_option (\<lambda>out. (toasts out,
        map (\<lambda>r. (total_amount r, rest_amount r)) (invoices_tbl (store out)),
        map amount (invoice_products_tbl (store out))))
     (Option.bind
        (handleProductAmountChange 0 150
           (open_dialog (\<lambda>s. s) ex_invoice (mount_dialog ''2024-03-05'' ex_invoice)))
        (handleSubmit no_update_faults ex_db ex_invoice))
   = Some ([ToastSuccess ''Factura actualizada correctamente''], [(100, - 50)], [150])"
  by (simp add: handleProductAmountChange_def open_dialog_def mount_dialog_def handleSubmit_def
      ex_invoice_simps
      ex_line_def ex_db_def ex_row_def no_update_faults_def updateInvoice_def Let_def
      slice_last4_def padStart4_def ncfPrefix_def effective_date_def
      insert_products_def productInserts_def enumerate_eq_zip)

lemma updateInvoice_line_items:
  assumes ids: "distinct (map inv_id (invoices_tbl db))"
    and r: "r \<in> set (invoices_tbl db)"
    and others: "\<forall>x\<in>set (invoices_tbl db). ncf x = n \<longrightarrow> inv_id x = inv_id r"
    and ok: "\<not> up_update_fails faults" "\<not> up_delete_fails faults" "\<not> up_products_fail faults"
  shows "invoice_products_tbl (store (updateInvoice faults db (inv_id r) n d T ra rp rc tc ps)) =
           filter (\<lambda>p. ip_invoice_id p \<noteq> inv_id r) (invoice_products_tbl db)
             @ productInserts (next_uuid db) (inv_id r) ps"
proof -
  let ?upd = "\<lambda>x. x \<lparr> ncf := n, invoice_date := d, total_amount := T,
                     rest_amount := ra, rest_percentage := rp,
                     rest_commission := rc, total_commission := tc \<rparr>"
  have no_other: "filter (\<lambda>x. ncf x = n \<and> inv_id x \<noteq> inv_id r) (invoices_tbl db) = []"
    using others by (auto simp: filter_empty_conv)
  have one: "filter (\<lambda>x. inv_id x = inv_id r)
               (map (\<lambda>x. if inv_id x = inv_id r then ?upd x else x) (invoices_tbl db)) = [?upd r]"
    using filter_key_update [of inv_id "invoices_tbl db" r ?upd, OF ids r] by simp
  show ?thesis
    using ok by (simp add: updateInvoice_def Let_def no_other one insert_products_def)
qed

text \<open>An update to the NCF of another invoice is rejected and changes nothing.\<close>

lemma updateInvoice_duplicate:
  assumes ncfs: "distinct (map ncf (invoices_tbl db))"
    and r': "r' \<in> set (invoices_tbl db)" "inv_id r' \<noteq> i"
    and ok: "\<not> up_lookup_fails faults"
  shows "updateInvoice faults db i (ncf r') d T ra rp rc tc ps =
           \<lparr> returned = None, toasts = [ToastError ''Ya existe una factura con este NCF''],
             store = db, refetch = False \<rparr>"
proof -
  have "filter (\<lambda>x. ncf x = ncf r' \<and> inv_id x \<noteq> i) (invoices_tbl db) =
      filter (\<lambda>x. inv_id x \<noteq> i) (filter (\<lambda>x. ncf x = ncf r') (invoices_tbl db))"
    by (simp add: conj_commute)
  also have "\<dots> = [r']"
    using r'(2) by (simp add: filter_key_unique [OF ncfs r'(1)])
  finally show ?thesis
    using ok by (simp add: updateInvoice_def Let_def)
qed

text \<open>
  C4. In a store whose invoices have distinct NCFs and distinct ids, creating an invoice
  with the NCF of an existing invoice is rejected with the notification
  \<open>Ya existe una factura con este NCF\<close>, returns \<open>null\<close> and leaves the store as it was
  (the lookup call having answered). Updating an invoice under its own NCF succeeds
  (the update call having answered): the updated row is returned, the success
  notification is shown, the row in the store carries the new fields while every other
  row is as before, and, the two line-item calls having answered, the line items of the
  invoice are replaced by the new ones. The lookup of the update leaves out the invoice
  itself and no other: an update to the NCF of another invoice is rejected like the
  create, the store unchanged.
\<close>

theorem C4_ncf_uniqueness:
  assumes "distinct (map ncf (invoices_tbl db))"
    and "distinct (map inv_id (invoices_tbl db))"
    and "r \<in> set (invoices_tbl db)"
    and "\<not> sv_lookup_fails sf"
    and "\<not> up_update_fails uf"
  shows "saveInvoice sf db (ncf r) d T ra rp rc tc ps sid =
           \<lparr> returned = None, toasts = [ToastError ''Ya existe una factura con este NCF''],
             store = db, refetch = False \<rparr>
       \<and> returned (updateInvoice uf db (inv_id r) (ncf r) d T ra rp rc tc ps) =
           Some (r \<lparr> ncf := ncf r, invoice_date := d, total_amount := T,
                     rest_amount := ra, rest_percentage := rp,
                     rest_commission := rc, total_commission := tc \<rparr>)
       \<and> toasts (updateInvoice uf db (inv_id r) (ncf r) d T ra rp rc tc ps) =
           [ToastSuccess ''Factura actualizada correctamente'']
       \<and> invoices_tbl (store (updateInvoice uf db (inv_id r) (ncf r) d T ra rp rc tc ps)) =
           map (\<lambda>x. if inv_id x = inv_id r
                 then x \<lparr> ncf := ncf r, invoice_date := d, total_amount := T,
                     rest_amount := ra, rest_percentage := rp,
                     rest_commission := rc, total_commission := tc \<rparr> else x) (invoices_tbl db)
       \<and> (\<not> up_delete_fails uf \<and> \<not> up_products_fail uf \<longrightarrow>
            invoice_products_tbl
              (store (updateInvoice uf db (inv_id r) (ncf r) d T ra rp rc tc ps)) =
            filter (\<lambda>p. ip_invoice_id p \<noteq> inv_id r) (invoice_products_tbl db)
              @ productInserts (next_uuid db) (inv_id r) ps)
       \<and> (\<not> up_lookup_fails uf \<longrightarrow>
            (\<forall>r'\<in>set (invoices_tbl db). inv_id r' \<noteq> inv_id r \<longrightarrow>
               updateInvoice uf db (inv_id r) (ncf r') d T ra rp rc tc ps =
                 \<lparr> returned = None,
                   toasts = [ToastError ''Ya existe una factura con este NCF''],
                   store = db, refetch = False \<rparr>))"
proof (intro conjI impI ballI)
  have "filter (\<lambda>x. ncf x = ncf r) (invoices_tbl db) = [r]"
    using assms(1,3) by (rule filter_key_unique)
  then show "saveInvoice sf db (ncf r) d T ra rp rc tc ps sid =
           \<lparr> returned = None, toasts = [ToastError ''Ya existe una factura con este NCF''],
             store = db, refetch = False \<rparr>"
    using assms(4) by (simp add: saveInvoice_def)
next
  have others: "\<forall>x\<in>set (invoices_tbl db). ncf x = ncf r \<longrightarrow> inv_id x = inv_id r"
    using assms(1,3) by (auto simp: distinct_map inj_on_def)
  show "returned (updateInvoice uf db (inv_id r) (ncf r) d T ra rp rc tc ps) =
           Some (r \<lparr> ncf := ncf r, invoice_date := d, total_amount := T,
                     rest_amount := ra, rest_percentage := rp,
                     rest_commission := rc, total_commission := tc \<rparr>)"
    using assms(2,3) others assms(5) by (rule updateInvoice_success(1))
  show "toasts (updateInvoice uf db (inv_id r) (ncf r) d T ra rp rc tc ps) =
           [ToastSuccess ''Factura actualizada correctamente'']"
    using assms(2,3) others assms(5) by (rule updateInvoice_success(2))
  show "invoices_tbl (store (updateInvoice uf db (inv_id r) (ncf r) d T ra rp rc tc ps)) =
           map (\<lambda>x. if inv_id x = inv_id r
                 then x \<lparr> ncf := ncf r, invoice_date := d, total_amount := T,
                     rest_amount := ra, rest_percentage := rp,
                     rest_commission := rc, total_commission := tc \<rparr> else x) (invoices_tbl db)"
    using assms(2,3) others assms(5) by (rule updateInvoice_success(3))
  show "invoice_products_tbl
              (store (updateInvoice uf db (inv_id r) (ncf r) d T ra rp rc tc ps)) =
            filter (\<lambda>p. ip_invoice_id p \<noteq> inv_id r) (invoice_products_tbl db)
              @ productInserts (next_uuid db) (inv_id r) ps"
    if "\<not> up_delete_fails uf \<and> \<not> up_products_fail uf"
    using that by (intro updateInvoice_line_items assms(2,3,5) others) simp_all
  show "updateInvoice uf db (inv_id r) (ncf r') d T ra rp rc tc ps =
                 \<lparr> returned = None,
                   toasts = [ToastError ''Ya existe una factura con este NCF''],
                   store = db, refetch = False \<rparr>"
    if "\<not> up_lookup_fails uf" "r' \<in> set (invoices_tbl db)" "inv_id r' \<noteq> inv_id r" for r'
    using assms(1) that(2,3,1) by (rule updateInvoice_duplicate)
qed

theorem C4_ncf_uniqueness_witness:
  "saveInvoice no_save_faults ex_db2 ''B010000001'' ''2024-04-01'' 10 10 25 (5 / 2) (5 / 2) [] None =
           \<lparr> returned = None, toasts = [ToastError ''Ya existe una factura con este NCF''],
             store = ex_db2, refetch = False \<rparr>
   \<and> returned (updateInvoice no_update_faults ex_db2 0 ''B010000001'' ''2024-04-01'' 10 10 25
        (5 / 2) (5 / 2) []) =
           Some (ex_row \<lparr> invoice_date := ''2024-04-01'', total_amount := 10,
                     rest_amount := 10, rest_percentage := 25,
                     rest_commission := 5 / 2, total_commission := 5 / 2 \<rparr>)
   \<and> toasts (updateInvoice no_update_faults ex_db2 0 ''B010000001'' ''2024-04-01'' 10 10 25
        (5 / 2) (5 / 2) []) =
           [ToastSuccess ''Factura actualizada correctamente'']
   \<and> store (updateInvoice no_update_faults ex_db2 0 ''B010000001'' ''2024-04-01'' 10 10 25
        (5 / 2) (5 / 2) []) =
           \<lparr> invoices_tbl = [ex_row \<lparr> invoice_date := ''2024-04-01'', total_amount := 10,
                     rest_amount := 10, rest_percentage := 25,
                     rest_commission := 5 / 2, total_commission := 5 / 2 \<rparr>, ex_row2],
             invoice_products_tbl = [], next_uuid = 8, now = ''2024-03-02T09:00:00+00:00'' \<rparr>
   \<and> updateInvoice no_update_faults ex_db2 0 ''B010000007'' ''2024-04-01'' 10 10 25
        (5 / 2) (5 / 2) [] =
           \<lparr> returned = None, toasts = [ToastError ''Ya existe una factura con este NCF''],
             store = ex_db2, refetch = False \<rparr>"
  using C4_ncf_uniqueness [of ex_db2 ex_row no_save_faults
      no_update_faults "''2024-04-01''" 10 10 25 "5 / 2" "5 / 2" "[]" None]
  by (simp add: ex_db2_def ex_row_def ex_row2_def ex_line_def no_update_faults_def
      no_save_faults_def updateInvoice_def Let_def insert_products_def productInserts_def)

text \<open>
  C8. The claim: an operation whose store call fails is aborted with a failure report
  and commits nothing. A create whose header insert succeeds and whose line-item insert
  fails shows \<open>Factura guardada correctamente\<close>, returns the invoice and leaves the header
  in the store without its line item.
\<close>

theorem C8_products_error_reports_success:
  "saveInvoice \<lparr> sv_lookup_fails = False, sv_insert_fails = False, sv_products_fail = True \<rparr>
     \<lparr> invoices_tbl = [], invoice_products_tbl = [], next_uuid = 0, now = ''t'' \<rparr>
     ''B010000001'' ''2024-03-01'' 1000 700 25 175 205
     [\<lparr> li_name = ''A'', li_amount = 300, li_percentage = 10, li_commission = 30 \<rparr>] None
   = \<lparr> returned = Some \<lparr> inv_id = 0, ncf = ''B010000001'', total_amount = 1000,
                         rest_amount = 700, rest_percentage = 25, rest_commission = 175,
                         total_commission = 205, created_at = ''t'',
                         invoice_date = ''2024-03-01'', seller_id = None \<rparr>,
       toasts = [ToastSuccess ''Factura guardada correctamente''],
       store = \<lparr> invoices_tbl = [\<lparr> inv_id = 0, ncf = ''B010000001'', total_amount = 1000,
                         rest_amount = 700, rest_percentage = 25, rest_commission = 175,
                         total_commission = 205, created_at = ''t'',
                         invoice_date = ''2024-03-01'', seller_id = None \<rparr>],
                 invoice_products_tbl = [], next_uuid = 1, now = ''t'' \<rparr>,
       refetch = True \<rparr>"
  by (simp add: saveInvoice_def Let_def insert_products_def productInserts_def)




section \<open>Properties of the calendar and of the monthly filter\<close>

lemma div_succ:
  fixes x c :: int
  assumes "0 < c"
  shows "(x + 1) div c = x div c + (if (x + 1) mod c = 0 then 1 else 0)"
proof (cases "x mod c + 1 = c")
  case True
  have "x + 1 = c * (x div c + 1) + 0"
    using True by (simp add: algebra_simps) (metis mult.commute add.commute add.assoc mult_div_mod_eq)
  then have "(x + 1) div c = x div c + 1" "(x + 1) mod c = 0"
    using assms by (metis add.right_neutral nonzero_mult_div_cancel_left less_irrefl, metis add.right_neutral mod_mult_self1_is_0)
  then show ?thesis by simp
next
  case False
  have r: "0 \<le> x mod c" "x mod c < c" using assms by simp_all
  have "x + 1 = c * (x div c) + (x mod c + 1)" by simp
  moreover have "0 \<le> x mod c + 1" "x mod c + 1 < c" "x mod c + 1 \<noteq> 0" using r False by arith+
  ultimately have "(x + 1) div c = x div c" "(x + 1) mod c \<noteq> 0"
    by (metis int_div_pos_eq, metis int_mod_pos_eq)
  then show ?thesis by simp
qed

lemma MakeDay_month_start: "MakeDay y m d = month_start_day (12 * y + m) + d - 1"
proof -
  have "(12 * y + m) div 12 = y + m div 12" "(12 * y + m) mod 12 = m mod 12"
    by simp_all
  then show ?thesis by (simp add: MakeDay_def month_start_day_def Let_def)
qed

lemma year_shift:
  fixes y :: int
  shows "(y - 1968) mod 4 = y mod 4" "(y - 1900) mod 100 = y mod 100"
    "(y - 1600) mod 400 = y mod 400"
proof -
  have "y - 1968 = y + 4 * (- 492)" "y - 1900 = y + 100 * (- 19)" "y - 1600 = y + 400 * (- 4)"
    by simp_all
  then show "(y - 1968) mod 4 = y mod 4" "(y - 1900) mod 100 = y mod 100"
    "(y - 1600) mod 400 = y mod 400"
    by (simp_all only: mod_mult_self2)
qed

lemma century_years:
  fixes y :: int
  shows "y mod 400 = 0 \<Longrightarrow> y mod 100 = 0" "y mod 100 = 0 \<Longrightarrow> y mod 4 = 0"
proof -
  have "y mod 400 mod 100 = y mod 100" by (rule mod_mod_cancel) simp
  then show "y mod 400 = 0 \<Longrightarrow> y mod 100 = 0" by simp
  have "y mod 100 mod 4 = y mod 4" by (rule mod_mod_cancel) simp
  then show "y mod 100 = 0 \<Longrightarrow> y mod 4 = 0" by simp
qed

lemma DayFromYear_Suc: "DayFromYear (y + 1) = DayFromYear y + 365 + (if InLeapYear y then 1 else 0)"
proof -
  have e: "y - 1969 + 1 = y - 1968" "y - 1901 + 1 = y - 1900" "y - 1601 + 1 = y - 1600"
    by simp_all
  have a: "(y - 1968) div 4 = (y - 1969) div 4 + (if y mod 4 = 0 then 1 else 0)"
    using div_succ [of 4 "y - 1969"] by (simp only: e year_shift)
  have b: "(y - 1900) div 100 = (y - 1901) div 100 + (if y mod 100 = 0 then 1 else 0)"
    using div_succ [of 100 "y - 1901"] by (simp only: e year_shift)
  have c: "(y - 1600) div 400 = (y - 1601) div 400 + (if y mod 400 = 0 then 1 else 0)"
    using div_succ [of 400 "y - 1601"] by (simp only: e year_shift)
  have f: "y + 1 - 1970 = y - 1969" "y + 1 - 1969 = y - 1968" "y + 1 - 1901 = y - 1900"
    "y + 1 - 1601 = y - 1600"
    by simp_all
  have step: "DayFromYear (y + 1) = DayFromYear y + 365
      + (if y mod 4 = 0 then 1 else 0) - (if y mod 100 = 0 then 1 else 0)
      + (if y mod 400 = 0 then 1 else 0)"
    unfolding DayFromYear_def f a b c by (simp add: algebra_simps)
  show ?thesis
  proof (cases "y mod 400 = 0")
    case True
    with century_years [of y] show ?thesis by (simp add: step InLeapYear_def)
  next
    case n400: False
    show ?thesis
    proof (cases "y mod 100 = 0")
      case True
      with n400 century_years(2) [of y] show ?thesis by (simp add: step InLeapYear_def)
    next
      case False
      with n400 show ?thesis by (simp add: step InLeapYear_def)
    qed
  qed
qed

lemma DaysBeforeMonth_step:
  assumes "0 \<le> mn" "mn < 11"
  shows "DaysBeforeMonth y (mn + 1) = DaysBeforeMonth y mn + DaysInMonth y mn"
proof -
  from assms have "mn = 0 \<or> mn = 1 \<or> mn = 2 \<or> mn = 3 \<or> mn = 4 \<or> mn = 5 \<or> mn = 6 \<or> mn = 7
      \<or> mn = 8 \<or> mn = 9 \<or> mn = 10" by arith
  then show ?thesis
    by (elim disjE) (simp_all add: DaysBeforeMonth_def DaysInMonth_def)
qed

lemma month_start_day_step:
  "month_start_day (k + 1) = month_start_day k + DaysInMonth (k div 12) (k mod 12)"
proof (cases "k mod 12 = 11")
  case True
  have m: "(k + 1) mod 12 = (k mod 12 + 1) mod 12" by (simp add: mod_add_left_eq)
  with True have m0: "(k + 1) mod 12 = 0" by simp
  with div_succ [of 12 k] have "(k + 1) div 12 = k div 12 + 1" by simp
  with m0 True show ?thesis
    by (simp add: month_start_day_def DayFromYear_Suc DaysBeforeMonth_def DaysInMonth_def)
next
  case False
  have r: "0 \<le> k mod 12" "k mod 12 < 12" by simp_all
  with False have r11: "k mod 12 < 11" by arith
  have "(k + 1) mod 12 = (k mod 12 + 1) mod 12" by (simp add: mod_add_left_eq)
  with r r11 have m: "(k + 1) mod 12 = k mod 12 + 1" by simp
  with r div_succ [of 12 k] have d: "(k + 1) div 12 = k div 12" by simp
  show ?thesis using r(1) r11
    by (simp add: month_start_day_def d m DaysBeforeMonth_step)
qed

lemma DaysInMonth_pos: "28 \<le> DaysInMonth y mn"
  by (simp add: DaysInMonth_def)

lemma month_start_day_mono:
  assumes "k < k'"
  shows "month_start_day (k + 1) \<le> month_start_day k'"
proof -
  have "month_start_day (k + 1) \<le> month_start_day (k + 1 + int n)" for n
  proof (induction n)
    case 0
    then show ?case by simp
  next
    case (Suc n)
    have "k + 1 + int (Suc n) = (k + 1 + int n) + 1" by simp
    then have "month_start_day (k + 1 + int (Suc n)) =
        month_start_day (k + 1 + int n)
          + DaysInMonth ((k + 1 + int n) div 12) ((k + 1 + int n) mod 12)"
      by (simp only: month_start_day_step)
    with DaysInMonth_pos [of "(k + 1 + int n) div 12" "(k + 1 + int n) mod 12"] Suc
    show ?case by arith
  qed
  from this [of "nat (k' - (k + 1))"] assms show ?thesis by simp
qed

lemma day_in_month_iff:
  assumes "1 \<le> d" "d \<le> DaysInMonth (k div 12) (k mod 12)"
  shows "month_start_day K \<le> month_start_day k + d - 1
         \<and> month_start_day k + d - 1 < month_start_day (K + 1) \<longleftrightarrow> k = K"
proof -
  consider "k < K" | "k = K" | "K < k" by arith
  then show ?thesis
  proof cases
    case 1
    from month_start_day_mono [OF 1] assms show ?thesis
      using 1 by (simp add: month_start_day_step)
  next
    case 2
    with assms show ?thesis by (simp add: month_start_day_step)
  next
    case 3
    from month_start_day_mono [OF 3] assms show ?thesis
      using 3 by simp
  qed
qed

lemma new_Date_month_start:
  "new_Date Y mi d =
     (month_start_day (12 * (if 0 \<le> Y \<and> Y \<le> 99 then 1900 + Y else Y) + mi) + d - 1) * msPerDay"
  by (simp only: new_Date_def MakeDay_month_start)

lemma startOfMonth_month_start:
  "startOfMonth (month_of_new_Date Y mi) =
     month_start_day (12 * (if 0 \<le> Y \<and> Y \<le> 99 then 1900 + Y else Y) + mi) * msPerDay"
proof -
  have "12 * (y + mi div 12) + mi mod 12 = 12 * y + mi" for y :: int
    by (simp add: algebra_simps)
  then show ?thesis
    by (simp add: startOfMonth_def month_of_new_Date_def MakeDay_month_start algebra_simps)
qed

lemma endOfMonth_month_start:
  "endOfMonth (month_of_new_Date Y mi) =
     month_start_day (12 * (if 0 \<le> Y \<and> Y \<le> 99 then 1900 + Y else Y) + mi + 1) * msPerDay - 1"
proof -
  have "12 * (y + mi div 12) + (mi mod 12 + 1) = 12 * y + mi + 1" for y :: int
    by (simp add: algebra_simps)
  then show ?thesis
    by (simp add: endOfMonth_def month_of_new_Date_def MakeDay_month_start algebra_simps)
qed

lemma month_interval_instants:
  "startOfMonth (month_of_new_Date Y (M - 1)) = month_first_instant Y M"
  "endOfMonth (month_of_new_Date Y (M - 1)) = month_last_instant Y M"
  by (simp_all add: startOfMonth_month_start endOfMonth_month_start month_first_instant_def
      month_last_instant_def new_Date_month_start)

lemma filteredInvoices_interval:
  "filteredInvoices P invs (Y, M) =
     filter (\<lambda>i. \<exists>t. parseInvoiceDate P (effective_date i) = Some t
                   \<and> month_first_instant Y M \<le> t \<and> t \<le> month_last_instant Y M) invs"
  unfolding filteredInvoices_def Let_def fst_conv snd_conv month_interval_instants
  by (rule filter_cong) (auto simp: isWithinInterval_def split: option.split)

lemma ms_scale:
  fixes a b :: int
  shows "a * msPerDay \<le> b * msPerDay \<longleftrightarrow> a \<le> b"
    "a * msPerDay \<le> b * msPerDay - 1 \<longleftrightarrow> a < b"
proof -
  show "a * msPerDay \<le> b * msPerDay \<longleftrightarrow> a \<le> b" by (simp add: msPerDay_def)
  have "a * msPerDay \<le> b * msPerDay - 1 \<longleftrightarrow> a * msPerDay < b * msPerDay" by arith
  then show "a * msPerDay \<le> b * msPerDay - 1 \<longleftrightarrow> a < b" by (simp add: msPerDay_def)
qed

lemma is_digit_digit_char: "n < 10 \<Longrightarrow> is_digit (digit_char n)"
proof -
  assume "n < 10"
  then have "n \<in> {0, 1, 2, 3, 4, 5, 6, 7, 8, 9}" by auto
  then show ?thesis by (auto simp: is_digit_def digit_char_def)
qed

lemma digit_value: "n < 10 \<Longrightarrow> int (of_char (digit_char n)) - 48 = int n"
proof -
  assume "n < 10"
  then have "n \<in> {0, 1, 2, 3, 4, 5, 6, 7, 8, 9}" by auto
  then show ?thesis by (auto simp: digit_char_def)
qed

lemma Number_two_digits: "n < 100 \<Longrightarrow> Number_of_digits (two_digits n) = int n"
proof -
  assume n: "n < 100"
  then have d: "n div 10 < 10" "n mod 10 < 10" by simp_all
  have "n = 10 * (n div 10) + n mod 10" by simp
  then have "int n = 10 * int (n div 10) + int (n mod 10)"
    by (metis (mono_tags, lifting) of_nat_add of_nat_mult of_nat_numeral)
  with d show ?thesis
    by (simp add: Number_of_digits_def two_digits_def digit_value)
qed

lemma Number_four_digits: "n < 10000 \<Longrightarrow> Number_of_digits (four_digits n) = int n"
proof -
  assume n: "n < 10000"
  then have d: "n div 1000 < 10" "n div 100 mod 10 < 10" "n div 10 mod 10 < 10" "n mod 10 < 10"
    by simp_all
  have a: "n = 10 * (n div 10) + n mod 10" by simp
  have b: "n div 10 = 10 * (n div 100) + n div 10 mod 10"
    using div_mult2_eq [of n 10 10] by simp
  have c: "n div 100 = 10 * (n div 1000) + n div 100 mod 10"
    using div_mult2_eq [of n 100 10] by simp
  have "n = 1000 * (n div 1000) + 100 * (n div 100 mod 10) + 10 * (n div 10 mod 10) + n mod 10"
    using a b c by arith
  then have "int n = 1000 * int (n div 1000) + 100 * int (n div 100 mod 10)
      + 10 * int (n div 10 mod 10) + int (n mod 10)"
    by (metis (mono_tags, lifting) of_nat_add of_nat_mult of_nat_numeral)
  with d show ?thesis
    by (simp add: Number_of_digits_def four_digits_def digit_value)
qed

lemma date_text_parts:
  "take 4 (date_text y m d) = four_digits y"
  "take 2 (drop 5 (date_text y m d)) = two_digits m"
  "drop 8 (date_text y m d) = two_digits d"
  "date_text y m d ! 4 = CHR ''-''" "date_text y m d ! 7 = CHR ''-''"
  "length (date_text y m d) = 10"
  by (simp_all add: date_text_def four_digits_def two_digits_def)

lemma is_date_only_date_text:
  assumes "y < 10000" "m < 100" "d < 100"
  shows "is_date_only (date_text y m d)"
proof -
  from assms have "y div 1000 < 10" "y div 100 mod 10 < 10" "y div 10 mod 10 < 10" "y mod 10 < 10"
    "m div 10 < 10" "m mod 10 < 10" "d div 10 < 10" "d mod 10 < 10"
    by simp_all
  then show ?thesis
    by (simp add: is_date_only_def date_text_parts)
      (simp add: four_digits_def two_digits_def is_digit_digit_char)
qed

lemma is_date_only_shaped: "is_date_only s \<longleftrightarrow> date_shaped s"
proof
  assume "is_date_only s"
  then have len: "length s = 10" by (simp add: is_date_only_def)
  then obtain y1 y2 y3 y4 h1 m1 m2 h2 d1 d2 where
    s: "s = [y1, y2, y3, y4, h1, m1, m2, h2, d1, d2]"
    by (auto simp: length_Suc_conv eval_nat_numeral)
  with \<open>is_date_only s\<close> show "date_shaped s"
    by (simp add: is_date_only_def date_shaped_def)
next
  assume "date_shaped s"
  then obtain y1 y2 y3 y4 h1 m1 m2 h2 d1 d2 where
    s: "s = [y1, y2, y3, y4, h1, m1, m2, h2, d1, d2]"
    by (auto simp: date_shaped_def split: list.splits)
  with \<open>date_shaped s\<close> show "is_date_only s"
    by (simp add: is_date_only_def date_shaped_def)
qed

lemma effective_date_recorded: "effective_date a = recorded_date a"
  by (simp add: effective_date_def recorded_date_def)

lemma parseInvoiceDate_date_text:
  assumes "y < 10000" "m < 100" "d < 100"
  shows "parseInvoiceDate P (date_text y m d) = Some (new_Date (int y) (int m - 1) (int d))"
  using assms
  by (simp add: parseInvoiceDate_def is_date_only_date_text date_text_parts
      Number_four_digits Number_two_digits)

lemma parseInvoiceDate_timestamp:
  "\<not> date_shaped s \<Longrightarrow> parseInvoiceDate P s = P s"
  by (simp add: parseInvoiceDate_def is_date_only_shaped)

lemma DaysInMonth_le: "DaysInMonth y mn \<le> 31"
  by (simp add: DaysInMonth_def)

lemma date_text_selected:
  assumes "y < 10000" "m < 100" "d < 100"
    and "recorded_date a = date_text y m d"
  shows "a \<in> set (filteredInvoices P invs (Y, M)) \<longleftrightarrow>
         a \<in> set invs \<and> month_first_instant Y M \<le> new_Date (int y) (int m - 1) (int d)
         \<and> new_Date (int y) (int m - 1) (int d) \<le> month_last_instant Y M"
  using assms
  by (simp add: filteredInvoices_interval effective_date_recorded parseInvoiceDate_date_text)

lemma timestamp_selected:
  assumes "\<not> date_shaped (recorded_date a)"
  shows "a \<in> set (filteredInvoices P invs (Y, M)) \<longleftrightarrow>
         a \<in> set invs \<and> (\<exists>t. P (recorded_date a) = Some t
            \<and> month_first_instant Y M \<le> t \<and> t \<le> month_last_instant Y M)"
  using assms
  by (simp add: filteredInvoices_interval effective_date_recorded parseInvoiceDate_timestamp)

lemma filteredInvoices_order:
  "filteredInvoices P invs (Y, M) = filter (\<lambda>a. a \<in> set (filteredInvoices P invs (Y, M))) invs"
  unfolding filteredInvoices_interval
  by (rule filter_cong) auto

lemma dated_on_selected:
  assumes sel: "100 \<le> Y" "1 \<le> M" "M \<le> 12"
    and a: "dated_on a y m d"
  shows "a \<in> set (filteredInvoices P invs (Y, M)) \<longleftrightarrow> a \<in> set invs \<and> y = Y \<and> m = M"
proof -
  let ?k = "12 * y + (m - 1)" and ?K = "12 * Y + (M - 1)"
  from a have rng: "100 \<le> y" "y \<le> 9999" "1 \<le> m" "m \<le> 12" "1 \<le> d"
      "d \<le> DaysInMonth y (m - 1)"
    and rd: "recorded_date a = date_text (nat y) (nat m) (nat d)"
    by (simp_all add: dated_on_def)
  from rng DaysInMonth_le [of y "m - 1"] have small: "nat y < 10000" "nat m < 100" "nat d < 100"
    by simp_all
  from rng have ints: "int (nat y) = y" "int (nat m) = m" "int (nat d) = d" by simp_all
  from rd have p: "parseInvoiceDate P (effective_date a) = Some (new_Date y (m - 1) d)"
    by (simp only: effective_date_recorded parseInvoiceDate_date_text [OF small] ints)
  have k: "?k div 12 = y" "?k mod 12 = m - 1" using rng by simp_all
  have t: "new_Date y (m - 1) d = (month_start_day ?k + d - 1) * msPerDay"
    using rng by (simp add: new_Date_month_start)
  have s: "startOfMonth (month_of_new_Date Y (M - 1)) = month_start_day ?K * msPerDay"
    using sel by (simp add: startOfMonth_month_start)
  have e: "endOfMonth (month_of_new_Date Y (M - 1)) = month_start_day (?K + 1) * msPerDay - 1"
    using sel by (simp add: endOfMonth_month_start)
  have "isWithinInterval (parseInvoiceDate P (effective_date a))
          (startOfMonth (month_of_new_Date Y (M - 1))) (endOfMonth (month_of_new_Date Y (M - 1)))
        \<longleftrightarrow> month_start_day ?K \<le> month_start_day ?k + d - 1
            \<and> month_start_day ?k + d - 1 < month_start_day (?K + 1)"
    by (simp only: p t s e isWithinInterval_def option.case ms_scale)
  also have "\<dots> \<longleftrightarrow> ?k = ?K"
    using day_in_month_iff [of d ?k ?K] rng by (simp only: k)
  also have "\<dots> \<longleftrightarrow> y = Y \<and> m = M"
  proof
    assume e: "?k = ?K"
    have K: "?K div 12 = Y" "?K mod 12 = M - 1" using sel by simp_all
    from e have "?k div 12 = ?K div 12" by (simp only:)
    then have "y = Y" by (simp only: k(1) K(1))
    with e show "y = Y \<and> m = M" by simp
  next
    assume "y = Y \<and> m = M"
    then show "?k = ?K" by simp
  qed
  finally show ?thesis
    by (simp add: filteredInvoices_def Let_def)
qed

lemma next_month_differs: "next_month (y, m) \<noteq> (y, m)"
  by (simp add: next_month_def)

text \<open>
  C5. The aggregator's filter keeps, in their order, exactly the invoices whose effective
  date falls in the selected month, and the effective date is \<open>invoice_date\<close> when the
  invoice has one and \<open>created_at\<close> otherwise. Stated on the two columns: an invoice whose
  recorded date is the date-only string of a calendar day is selected exactly when that
  day's year and month are the selected ones; an invoice whose recorded date is any
  string \<open>yyyy-MM-dd\<close> is selected exactly when local midnight of the day the three
  numbers denote lies between the first and the last instant of the selected month; an
  invoice whose recorded date has another shape (a timestamp) is selected exactly when
  the host reads it as an instant between those two. So an invoice dated the last day
  of a month and one dated the first day of the next month are never selected together.
\<close>

theorem C5_month_filter:
  assumes "100 \<le> Y" "1 \<le> M" "M \<le> 12"
  shows "filteredInvoices P invs (Y, M) =
           filter (\<lambda>a. a \<in> set (filteredInvoices P invs (Y, M))) invs
       \<and> (\<forall>a y m d. dated_on a y m d \<longrightarrow>
             (a \<in> set (filteredInvoices P invs (Y, M)) \<longleftrightarrow> a \<in> set invs \<and> y = Y \<and> m = M))
       \<and> (\<forall>a y m d. y < 10000 \<and> m < 100 \<and> d < 100 \<and> recorded_date a = date_text y m d \<longrightarrow>
             (a \<in> set (filteredInvoices P invs (Y, M)) \<longleftrightarrow>
              a \<in> set invs \<and> month_first_instant Y M \<le> new_Date (int y) (int m - 1) (int d)
              \<and> new_Date (int y) (int m - 1) (int d) \<le> month_last_instant Y M))
       \<and> (\<forall>a. \<not> date_shaped (recorded_date a) \<longrightarrow>
             (a \<in> set (filteredInvoices P invs (Y, M)) \<longleftrightarrow>
              a \<in> set invs \<and> (\<exists>t. P (recorded_date a) = Some t
                 \<and> month_first_instant Y M \<le> t \<and> t \<le> month_last_instant Y M)))
       \<and> (\<forall>a b y m.
             dated_on a y m (DaysInMonth y (m - 1))
             \<and> dated_on b (fst (next_month (y, m))) (snd (next_month (y, m))) 1 \<longrightarrow>
             \<not> (a \<in> set (filteredInvoices P invs (Y, M))
                \<and> b \<in> set (filteredInvoices P invs (Y, M))))"
proof (intro conjI allI impI)
  show "filteredInvoices P invs (Y, M) =
           filter (\<lambda>a. a \<in> set (filteredInvoices P invs (Y, M))) invs"
    by (rule filteredInvoices_order)
next
  fix a y m d
  assume "dated_on a y m d"
  with assms show "a \<in> set (filteredInvoices P invs (Y, M)) \<longleftrightarrow> a \<in> set invs \<and> y = Y \<and> m = M"
    by (rule dated_on_selected)
next
  fix a :: Invoice and y m d :: nat
  assume "y < 10000 \<and> m < 100 \<and> d < 100 \<and> recorded_date a = date_text y m d"
  then show "a \<in> set (filteredInvoices P invs (Y, M)) \<longleftrightarrow>
              a \<in> set invs \<and> month_first_instant Y M \<le> new_Date (int y) (int m - 1) (int d)
              \<and> new_Date (int y) (int m - 1) (int d) \<le> month_last_instant Y M"
    by (simp only: date_text_selected)
next
  fix a :: Invoice
  assume "\<not> date_shaped (recorded_date a)"
  then show "a \<in> set (filteredInvoices P invs (Y, M)) \<longleftrightarrow>
              a \<in> set invs \<and> (\<exists>t. P (recorded_date a) = Some t
                 \<and> month_first_instant Y M \<le> t \<and> t \<le> month_last_instant Y M)"
    by (rule timestamp_selected)
next
  fix a b y m
  assume ab: "dated_on a y m (DaysInMonth y (m - 1))
             \<and> dated_on b (fst (next_month (y, m))) (snd (next_month (y, m))) 1"
  show "\<not> (a \<in> set (filteredInvoices P invs (Y, M))
                \<and> b \<in> set (filteredInvoices P invs (Y, M)))"
  proof
    assume both: "a \<in> set (filteredInvoices P invs (Y, M))
                \<and> b \<in> set (filteredInvoices P invs (Y, M))"
    from both ab dated_on_selected [OF assms, of a y m _ P invs] have "(y, m) = (Y, M)"
      by blast
    moreover from both ab
      dated_on_selected [OF assms, of b "fst (next_month (y, m))" "snd (next_month (y, m))" 1 P invs]
    have "next_month (y, m) = (Y, M)"
      by (metis prod.collapse)
    ultimately show False using next_month_differs [of y m] by simp
  qed
qed

lemma ex_recorded_dates:
  "recorded_date ex_feb_invoice = ''2024-02-29''" "recorded_date ex_invoice = ''2024-03-01''"
  "recorded_date ex_created_invoice = ''2024-03-15T10:30:00''"
  by (simp_all add: ex_feb_invoice_def ex_created_invoice_def recorded_date_def ex_invoice_simps)

lemma ex_date_texts:
  "date_text 2024 2 29 = ''2024-02-29''" "date_text 2024 3 1 = ''2024-03-01''"
  "date_text 2024 3 (Suc 0) = ''2024-03-01''"
  by (simp_all add: date_text_def four_digits_def two_digits_def digit_char_def)

lemma ex_dated:
  "dated_on ex_feb_invoice 2024 2 29" "dated_on ex_invoice 2024 3 1"
  by (simp_all add: dated_on_def ex_recorded_dates ex_date_texts DaysInMonth_def InLeapYear_def)

lemma ex_timestamp:
  "\<not> date_shaped (recorded_date ex_created_invoice)"
  "ex_Date_parse (recorded_date ex_created_invoice) = Some (new_Date 2024 2 15 + 37800000)"
  by (simp_all add: ex_recorded_dates date_shaped_def ex_Date_parse_def)

lemma ex_instants:
  "month_first_instant 2024 2 \<le> new_Date 2024 1 29"
  "new_Date 2024 1 29 \<le> month_last_instant 2024 2"
  "\<not> new_Date 2024 2 15 + 37800000 \<le> month_last_instant 2024 2"
  "month_first_instant 2024 3 \<le> new_Date 2024 2 15 + 37800000"
  "new_Date 2024 2 15 + 37800000 \<le> month_last_instant 2024 3"
  by (simp_all add: month_first_instant_def month_last_instant_def new_Date_def MakeDay_def
      DayFromYear_def DaysBeforeMonth_def DaysInMonth_def InLeapYear_def msPerDay_def)

theorem C5_month_filter_witness:
  "filteredInvoices ex_Date_parse [ex_feb_invoice, ex_invoice, ex_created_invoice] (2024, 2)
     = [ex_feb_invoice]
   \<and> filteredInvoices ex_Date_parse [ex_feb_invoice, ex_invoice, ex_created_invoice] (2024, 3)
     = [ex_invoice, ex_created_invoice]
   \<and> (ex_feb_invoice \<in> set (filteredInvoices ex_Date_parse
          [ex_feb_invoice, ex_invoice, ex_created_invoice] (2024, 2))
      \<longleftrightarrow> month_first_instant 2024 2 \<le> new_Date 2024 1 29
          \<and> new_Date 2024 1 29 \<le> month_last_instant 2024 2)"
proof -
  let ?invs = "[ex_feb_invoice, ex_invoice, ex_created_invoice]"
  have feb: "100 \<le> (2024::int)" "1 \<le> (2::int)" "(2::int) \<le> 12"
    and mar: "100 \<le> (2024::int)" "1 \<le> (3::int)" "(3::int) \<le> 12"
    by simp_all
  note F = C5_month_filter [OF feb, of ex_Date_parse ?invs]
  note M = C5_month_filter [OF mar, of ex_Date_parse ?invs]
  note day_feb = F [THEN conjunct2, THEN conjunct1, rule_format]
  note day_mar = M [THEN conjunct2, THEN conjunct1, rule_format]
  note txt_feb = F [THEN conjunct2, THEN conjunct2, THEN conjunct1, rule_format,
      of 2024 2 29 ex_feb_invoice]
  note ts_feb = F [THEN conjunct2, THEN conjunct2, THEN conjunct2, THEN conjunct1, rule_format]
  note ts_mar = M [THEN conjunct2, THEN conjunct2, THEN conjunct2, THEN conjunct1, rule_format]
  have m2: "ex_feb_invoice \<in> set (filteredInvoices ex_Date_parse ?invs (2024, 2))"
      "ex_invoice \<notin> set (filteredInvoices ex_Date_parse ?invs (2024, 2))"
      "ex_created_invoice \<notin> set (filteredInvoices ex_Date_parse ?invs (2024, 2))"
    using day_feb [OF ex_dated(1)] day_feb [OF ex_dated(2)] ts_feb [OF ex_timestamp(1)]
    by (simp_all add: ex_timestamp(2) ex_instants)
  have m3: "ex_feb_invoice \<notin> set (filteredInvoices ex_Date_parse ?invs (2024, 3))"
      "ex_invoice \<in> set (filteredInvoices ex_Date_parse ?invs (2024, 3))"
      "ex_created_invoice \<in> set (filteredInvoices ex_Date_parse ?invs (2024, 3))"
    using day_mar [OF ex_dated(1)] day_mar [OF ex_dated(2)] ts_mar [OF ex_timestamp(1)]
    by (simp_all add: ex_timestamp(2) ex_instants)
  have "filteredInvoices ex_Date_parse ?invs (2024, 2) = [ex_feb_invoice]"
    using F [THEN conjunct1] m2 by simp
  moreover have "filteredInvoices ex_Date_parse ?invs (2024, 3) = [ex_invoice, ex_created_invoice]"
    using M [THEN conjunct1] m3 by simp
  moreover have "ex_feb_invoice \<in> set (filteredInvoices ex_Date_parse ?invs (2024, 2))
      \<longleftrightarrow> month_first_instant 2024 2 \<le> new_Date 2024 1 29
          \<and> new_Date 2024 1 29 \<le> month_last_instant 2024 2"
    using txt_feb by (simp add: ex_recorded_dates ex_date_texts)
  ultimately show ?thesis by (simp only: simp_thms)
qed

section \<open>Properties of the monthly grouping\<close>

lemma add_product_skip: "amount p \<le> 0 \<Longrightarrow> add_product i g p = Inr g"
  by (simp add: add_product_def)

lemma add_product_plain:
  assumes "0 < amount p" "product_name p \<notin> set inherited_members"
  shows "add_product i g p = Inr (add_item g (i, p))"
  using assms
  by (auto simp: add_product_def add_item_def Let_def get_property_def update_conv'
      split: option.splits)

lemma add_product_inherited:
  assumes "0 < amount p" "product_name p \<in> set inherited_members"
    and "product_name p \<notin> fst ` set g"
  shows "add_product i g p = Inl TypeError"
proof -
  from assms(3) have "map_of g (product_name p) = None"
    by (simp add: map_of_eq_None_iff)
  with assms(1,2) show ?thesis
    by (simp add: add_product_def Let_def get_property_def)
qed

lemma forEach_add_product_items:
  "forEach (add_product i) g ps =
     forEach add_line g (map (Pair i) (filter (\<lambda>p. amount p > 0) ps))"
  by (induction ps arbitrary: g)
    (auto simp: add_line_def add_product_skip not_less split: sum.splits)

lemma forEach_append:
  "forEach body s (xs @ ys) =
     (case forEach body s xs of Inl e \<Rightarrow> Inl e | Inr s' \<Rightarrow> forEach body s' ys)"
  by (induction xs arbitrary: s) (simp_all split: sum.splits)

lemma product_groups_line_items:
  "forEach (\<lambda>groups invoice. forEach (add_product invoice) groups (products invoice)) g F =
     forEach add_line g (line_items F)"
proof (induction F arbitrary: g)
  case Nil
  then show ?case by (simp add: line_items_def)
next
  case (Cons i F)
  have "line_items (i # F) =
      map (Pair i) (filter (\<lambda>p. amount p > 0) (products i)) @ line_items F"
    by (simp add: line_items_def)
  then show ?case
    by (simp only: forEach.simps Cons.IH) (simp only: forEach_append forEach_add_product_items)
qed

lemma plain_names_line_items:
  "plain_names F \<longleftrightarrow>
     (\<forall>ip\<in>set (line_items F). product_name (snd ip) \<notin> set inherited_members)"
  by (auto simp: plain_names_def line_items_def)

lemma line_items_positive: "ip \<in> set (line_items F) \<Longrightarrow> amount (snd ip) > 0"
  by (auto simp: line_items_def)

lemma map_of_add_item:
  assumes "amount (snd ip) > 0"
  shows "map_of (add_item g ip) =
     (map_of g)(product_name (snd ip) \<mapsto>
        (let g0 = (case map_of g (product_name (snd ip)) of
                     None \<Rightarrow> \<lparr> pb_name = product_name (snd ip),
                                pb_percentage = percentage (snd ip), pb_entries = [],
                                pb_totalAmount = 0, pb_totalCommission = 0 \<rparr>
                   | Some x \<Rightarrow> x)
         in g0 \<lparr> pb_entries := pb_entries g0 @
                     [\<lparr> e_ncf = ncf (fst ip), e_date = effective_date (fst ip),
                        e_amount = amount (snd ip) \<rparr>],
                 pb_totalAmount := pb_totalAmount g0 + amount (snd ip),
                 pb_totalCommission := pb_totalCommission g0 + commission (snd ip) \<rparr>))"
  using assms
  by (auto simp: add_item_def Let_def map_of_map_entry update_conv' fun_eq_iff
      split: option.splits)

lemma distinct_add_item:
  "distinct (map fst g) \<Longrightarrow> distinct (map fst (add_item g ip))"
  by (simp add: add_item_def Let_def distinct_map_entry distinct_update)

lemma group_of_snoc_other:
  "product_name (snd ip) \<noteq> n \<Longrightarrow> group_of n (its @ [ip]) = group_of n its"
  by (simp add: group_of_def)

lemma group_of_snoc_new:
  assumes "product_name (snd ip) \<notin> (\<lambda>x. product_name (snd x)) ` set its"
  shows "group_of (product_name (snd ip)) (its @ [ip]) =
     \<lparr> pb_name = product_name (snd ip), pb_percentage = percentage (snd ip),
       pb_entries = [\<lparr> e_ncf = ncf (fst ip), e_date = effective_date (fst ip),
                        e_amount = amount (snd ip) \<rparr>],
       pb_totalAmount = 0 + amount (snd ip),
       pb_totalCommission = 0 + commission (snd ip) \<rparr>"
proof -
  from assms have "\<forall>x\<in>set its. product_name (snd x) \<noteq> product_name (snd ip)"
    by (auto simp: image_iff)
  then have "filter (\<lambda>x. product_name (snd x) = product_name (snd ip)) its = []"
    by (simp add: filter_empty_conv)
  then show ?thesis by (simp add: group_of_def Let_def)
qed

lemma group_of_snoc_old:
  assumes "product_name (snd ip) \<in> (\<lambda>x. product_name (snd x)) ` set its"
  shows "group_of (product_name (snd ip)) (its @ [ip]) =
     (group_of (product_name (snd ip)) its)
       \<lparr> pb_entries := pb_entries (group_of (product_name (snd ip)) its) @
            [\<lparr> e_ncf = ncf (fst ip), e_date = effective_date (fst ip),
               e_amount = amount (snd ip) \<rparr>],
         pb_totalAmount := pb_totalAmount (group_of (product_name (snd ip)) its) + amount (snd ip),
         pb_totalCommission :=
           pb_totalCommission (group_of (product_name (snd ip)) its) + commission (snd ip) \<rparr>"
proof -
  from assms have "filter (\<lambda>x. product_name (snd x) = product_name (snd ip)) its \<noteq> []"
    by (force simp: filter_empty_conv)
  then show ?thesis by (simp add: group_of_def Let_def)
qed

lemma groups_invariant:
  assumes "\<forall>ip\<in>set its. amount (snd ip) > 0"
  shows "distinct (map fst (foldl add_item [] its))
       \<and> (\<forall>k. map_of (foldl add_item [] its) k =
             (if k \<in> (\<lambda>x. product_name (snd x)) ` set its then Some (group_of k its) else None))"
  using assms
proof (induction its rule: rev_induct)
  case Nil
  then show ?case by simp
next
  case (snoc ip its)
  let ?g = "foldl add_item [] its"
  let ?n = "product_name (snd ip)"
  from snoc have IH: "distinct (map fst ?g)"
    "\<And>k. map_of ?g k =
       (if k \<in> (\<lambda>x. product_name (snd x)) ` set its then Some (group_of k its) else None)"
    and pos: "amount (snd ip) > 0"
    by simp_all
  have d: "distinct (map fst (foldl add_item [] (its @ [ip])))"
    using IH(1) by (simp add: distinct_add_item)
  have m: "map_of (foldl add_item [] (its @ [ip])) k =
       (if k \<in> (\<lambda>x. product_name (snd x)) ` set (its @ [ip])
        then Some (group_of k (its @ [ip])) else None)" for k
  proof (cases "k = ?n")
    case True
    show ?thesis
    proof (cases "?n \<in> (\<lambda>x. product_name (snd x)) ` set its")
      case old: True
      then show ?thesis
        using True by (simp add: map_of_add_item [OF pos] IH(2) Let_def group_of_snoc_old [OF old])
    next
      case new: False
      then show ?thesis
        using True by (simp add: map_of_add_item [OF pos] IH(2) Let_def group_of_snoc_new [OF new])
    qed
  next
    case False
    then have "group_of k (its @ [ip]) = group_of k its"
      by (simp add: group_of_snoc_other)
    with False show ?thesis
      by (simp add: map_of_add_item [OF pos] IH(2))
  qed
  from d m show ?case by blast
qed

lemma add_item_keys: "fst ` set (add_item g ip) = insert (product_name (snd ip)) (fst ` set g)"
  by (simp add: add_item_def Let_def dom_map_entry dom_update insert_absorb map_of_eq_None_iff)

lemma forEach_add_line_plain:
  assumes "\<forall>ip\<in>set its. amount (snd ip) > 0 \<and> product_name (snd ip) \<notin> set inherited_members"
  shows "forEach add_line g its = Inr (foldl add_item g its)"
  using assms
proof (induction its arbitrary: g)
  case Nil
  then show ?case by simp
next
  case (Cons ip its)
  then have "add_line g ip = Inr (add_item g ip)"
    using add_product_plain [of "snd ip" "fst ip" g] by (simp add: add_line_def)
  with Cons show ?case by simp
qed

lemma forEach_add_line_inherited:
  assumes "\<forall>ip\<in>set its. amount (snd ip) > 0"
    and "\<exists>ip\<in>set its. product_name (snd ip) \<in> set inherited_members"
    and "fst ` set g \<inter> set inherited_members = {}"
  shows "forEach add_line g its = Inl TypeError"
  using assms
proof (induction its arbitrary: g)
  case Nil
  then show ?case by simp
next
  case (Cons ip its)
  show ?case
  proof (cases "product_name (snd ip) \<in> set inherited_members")
    case True
    with Cons.prems(3) have "product_name (snd ip) \<notin> fst ` set g" by blast
    with True Cons.prems(1) have "add_line g ip = Inl TypeError"
      by (simp add: add_line_def add_product_inherited)
    then show ?thesis by simp
  next
    case False
    with Cons.prems(1) have step: "add_line g ip = Inr (add_item g ip)"
      using add_product_plain [of "snd ip" "fst ip" g] by (simp add: add_line_def)
    from False Cons.prems(3) have keys: "fst ` set (add_item g ip) \<inter> set inherited_members = {}"
      by (simp add: add_item_keys)
    from False Cons.prems(2)
    have some: "\<exists>ip\<in>set its. product_name (snd ip) \<in> set inherited_members" by auto
    from Cons.prems(1) have pos: "\<forall>ip\<in>set its. amount (snd ip) > 0" by simp
    have "forEach add_line (add_item g ip) its = Inl TypeError"
      using pos some keys by (rule Cons.IH)
    with step show ?thesis by simp
  qed
qed

text \<open>
  The two loops throw exactly when a line item with a positive amount carries the name
  of an inherited member; otherwise they build the plain groups.
\<close>

lemma product_groups_plain: "plain_names F \<Longrightarrow> product_groups F = Inr (plain_groups F)"
  using forEach_add_line_plain [of "line_items F" "[]"] line_items_positive [of _ F]
  by (simp add: product_groups_def product_groups_line_items plain_groups_def
      plain_names_line_items)

lemma product_groups_throws: "\<not> plain_names F \<Longrightarrow> product_groups F = Inl TypeError"
  using forEach_add_line_inherited [of "line_items F" "[]"] line_items_positive [of _ F]
  by (simp add: product_groups_def product_groups_line_items plain_names_line_items)

lemma productsBreakdown_throws_iff: "productsBreakdown F = Inl TypeError \<longleftrightarrow> \<not> plain_names F"
  by (cases "plain_names F")
    (simp_all add: productsBreakdown_def product_groups_plain product_groups_throws)

lemma plain_groups_distinct: "distinct (map fst (plain_groups F))"
  using groups_invariant [of "line_items F"] line_items_positive [of _ F]
  by (simp add: plain_groups_def)

lemma plain_groups_map_of:
  "map_of (plain_groups F) k =
     (if k \<in> (\<lambda>x. product_name (snd x)) ` set (line_items F)
      then Some (group_of k (line_items F)) else None)"
  using groups_invariant [of "line_items F"] line_items_positive [of _ F]
  by (simp add: plain_groups_def)

lemma plain_groups_keys:
  "fst ` set (plain_groups F) = (\<lambda>x. product_name (snd x)) ` set (line_items F)"
proof -
  have "fst ` set (plain_groups F) = dom (map_of (plain_groups F))"
    by (simp add: dom_map_of_conv_image_fst)
  also have "\<dots> = (\<lambda>x. product_name (snd x)) ` set (line_items F)"
    by (auto simp: dom_def plain_groups_map_of)
  finally show ?thesis .
qed

lemma plain_groups_member:
  assumes "kg \<in> set (plain_groups F)"
  shows "snd kg = group_of (fst kg) (line_items F)"
proof -
  from assms plain_groups_distinct [of F] have "map_of (plain_groups F) (fst kg) = Some (snd kg)"
    by (simp add: map_of_eq_Some_iff)
  then show ?thesis
    by (simp add: plain_groups_map_of split: if_splits)
qed

lemma pb_name_group_of [simp]: "pb_name (group_of k its) = k"
  by (simp add: group_of_def Let_def)

lemma plain_groups_names:
  "map pb_name (map snd (plain_groups F)) = map fst (plain_groups F)"
  by (simp add: plain_groups_member)

lemma restBreakdown_foldl:
  "foldl (\<lambda>acc invoice.
              if rest_amount invoice > 0 then
                \<lparr> rb_entries = rb_entries acc @
                    [\<lparr> e_ncf = ncf invoice,
                       e_date = effective_date invoice,
                       e_amount = rest_amount invoice \<rparr>],
                  rb_totalAmount = rb_totalAmount acc + rest_amount invoice,
                  rb_totalCommission = rb_totalCommission acc + rest_commission invoice \<rparr>
              else acc) acc F =
     \<lparr> rb_entries = rb_entries acc @
         map (\<lambda>i. \<lparr> e_ncf = ncf i, e_date = effective_date i, e_amount = rest_amount i \<rparr>)
           (filter (\<lambda>i. rest_amount i > 0) F),
       rb_totalAmount = rb_totalAmount acc
         + sum_list (map rest_amount (filter (\<lambda>i. rest_amount i > 0) F)),
       rb_totalCommission = rb_totalCommission acc
         + sum_list (map rest_commission (filter (\<lambda>i. rest_amount i > 0) F)) \<rparr>"
  by (induction F arbitrary: acc) (simp_all add: add.assoc)

lemma restBreakdown_eq:
  "restBreakdown F =
     \<lparr> rb_entries =
         map (\<lambda>i. \<lparr> e_ncf = ncf i, e_date = effective_date i, e_amount = rest_amount i \<rparr>)
           (filter (\<lambda>i. rest_amount i > 0) F),
       rb_totalAmount = sum_list (map rest_amount (filter (\<lambda>i. rest_amount i > 0) F)),
       rb_totalCommission = sum_list (map rest_commission (filter (\<lambda>i. rest_amount i > 0) F)) \<rparr>"
  unfolding restBreakdown_def by (simp only: restBreakdown_foldl) simp

text \<open>
  The grouping for category names that are no inherited members: the groups have
  pairwise distinct names, the names being exactly those of the line items with a
  positive amount; each group is the group of its name (entries, subtotal amount and
  subtotal commission of the line items of that name); the groups come in descending
  order of subtotal amount; and the grand total commission is the sum of the groups'
  subtotal commissions plus the rest bucket's.
\<close>

lemma productsBreakdown_plain:
  assumes "plain_names F"
  shows "\<exists>gs. productsBreakdown F = Inr gs
       \<and> distinct (map pb_name gs)
       \<and> set (map pb_name gs) = (\<lambda>ip. product_name (snd ip)) ` set (line_items F)
       \<and> (\<forall>g\<in>set gs. g = group_of (pb_name g) (line_items F))
       \<and> sorted_wrt (\<lambda>a b. pb_totalAmount a \<ge> pb_totalAmount b) gs
       \<and> grandTotalCommission F =
           Inr (sum_list (map pb_totalCommission gs) + rb_totalCommission (restBreakdown F))"
proof -
  let ?gs = "sort_key (\<lambda>g. - pb_totalAmount g) (object_values (plain_groups F))"
  have pb: "productsBreakdown F = Inr ?gs"
    using assms by (simp add: productsBreakdown_def product_groups_plain)
  have ms: "mset ?gs = mset (map snd (plain_groups F))"
    by (simp add: mset_object_values del: mset_map)
  then have "mset (map pb_name ?gs) = mset (map pb_name (map snd (plain_groups F)))"
    by (simp only: mset_map)
  then have "mset (map pb_name ?gs) = mset (map fst (plain_groups F))"
    by (simp only: plain_groups_names)
  from mset_eq_imp_distinct_iff [OF this] have d: "distinct (map pb_name ?gs)"
    using plain_groups_distinct [of F] by (simp only:)
  have st: "set ?gs = snd ` set (plain_groups F)"
    by (simp add: set_object_values)
  then have "set (map pb_name ?gs) = set (map pb_name (map snd (plain_groups F)))"
    by (simp add: image_image)
  then have n: "set (map pb_name ?gs) = (\<lambda>ip. product_name (snd ip)) ` set (line_items F)"
    by (simp only: plain_groups_names) (simp add: plain_groups_keys)
  have g: "\<forall>g\<in>set ?gs. g = group_of (pb_name g) (line_items F)"
  proof
    fix g assume "g \<in> set ?gs"
    with st obtain kg where kg: "kg \<in> set (plain_groups F)" "g = snd kg" by auto
    from plain_groups_member [OF kg(1)] kg(2) show "g = group_of (pb_name g) (line_items F)"
      by simp
  qed
  have "sorted (map (\<lambda>g. - pb_totalAmount g) ?gs)"
    by (rule sorted_sort_key)
  then have s: "sorted_wrt (\<lambda>a b. pb_totalAmount a \<ge> pb_totalAmount b) ?gs"
    by (simp add: sorted_map)
  have t: "grandTotalCommission F =
           Inr (sum_list (map pb_totalCommission ?gs) + rb_totalCommission (restBreakdown F))"
    by (simp add: grandTotalCommission_def pb sum_foldl)
  from pb d n g s t show ?thesis by blast
qed

lemma ex_groups_values:
  "object_values
     [(''A'', \<lparr> pb_name = ''A'', pb_percentage = 10,
               pb_entries = [\<lparr> e_ncf = ''B010000001'', e_date = ''2024-03-01'', e_amount = 50 \<rparr>,
                             \<lparr> e_ncf = ''B010000009'', e_date = ''2024-04-02'', e_amount = 20 \<rparr>],
               pb_totalAmount = 70, pb_totalCommission = 7 \<rparr>),
      (''B'', \<lparr> pb_name = ''B'', pb_percentage = 20,
               pb_entries = [\<lparr> e_ncf = ''B010000009'', e_date = ''2024-04-02'', e_amount = 200 \<rparr>],
               pb_totalAmount = 200, pb_totalCommission = 40 \<rparr>)] =
     [\<lparr> pb_name = ''A'', pb_percentage = 10,
               pb_entries = [\<lparr> e_ncf = ''B010000001'', e_date = ''2024-03-01'', e_amount = 50 \<rparr>,
                             \<lparr> e_ncf = ''B010000009'', e_date = ''2024-04-02'', e_amount = 20 \<rparr>],
               pb_totalAmount = 70, pb_totalCommission = 7 \<rparr>,
      \<lparr> pb_name = ''B'', pb_percentage = 20,
               pb_entries = [\<lparr> e_ncf = ''B010000009'', e_date = ''2024-04-02'', e_amount = 200 \<rparr>],
               pb_totalAmount = 200, pb_totalCommission = 40 \<rparr>]"
  by (rule trans [OF object_values_plain]) (simp_all add: is_array_index_def is_digit_def)

text \<open>
  Two invoices with the categories A and B: the groups come out as B (200, commission
  40) before A (70, commission 7), and the grand total is 47.
\<close>

lemma productsBreakdown_example:
  "map_sum id (map (\<lambda>g. (pb_name g, pb_totalAmount g, pb_totalCommission g)))
     (productsBreakdown [ex_invoice, ex_april_invoice]) = Inr [(''B'', 200, 40), (''A'', 70, 7)]
   \<and> map e_ncf (rb_entries (restBreakdown [ex_invoice, ex_april_invoice])) = [''B010000001'']
   \<and> grandTotalCommission [ex_invoice, ex_april_invoice] = Inr 47"
proof -
  have g: "product_groups [ex_invoice, ex_april_invoice] = Inr
     [(''A'', \<lparr> pb_name = ''A'', pb_percentage = 10,
               pb_entries = [\<lparr> e_ncf = ''B010000001'', e_date = ''2024-03-01'', e_amount = 50 \<rparr>,
                             \<lparr> e_ncf = ''B010000009'', e_date = ''2024-04-02'', e_amount = 20 \<rparr>],
               pb_totalAmount = 70, pb_totalCommission = 7 \<rparr>),
      (''B'', \<lparr> pb_name = ''B'', pb_percentage = 20,
               pb_entries = [\<lparr> e_ncf = ''B010000009'', e_date = ''2024-04-02'', e_amount = 200 \<rparr>],
               pb_totalAmount = 200, pb_totalCommission = 40 \<rparr>)]"
    by (simp add: product_groups_def add_product_def Let_def ex_invoice_simps ex_line_def
        ex_april_invoice_def effective_date_def get_property_def inherited_members_def)
  have p: "productsBreakdown [ex_invoice, ex_april_invoice] = Inr
     [\<lparr> pb_name = ''B'', pb_percentage = 20,
               pb_entries = [\<lparr> e_ncf = ''B010000009'', e_date = ''2024-04-02'', e_amount = 200 \<rparr>],
               pb_totalAmount = 200, pb_totalCommission = 40 \<rparr>,
      \<lparr> pb_name = ''A'', pb_percentage = 10,
               pb_entries = [\<lparr> e_ncf = ''B010000001'', e_date = ''2024-03-01'', e_amount = 50 \<rparr>,
                             \<lparr> e_ncf = ''B010000009'', e_date = ''2024-04-02'', e_amount = 20 \<rparr>],
               pb_totalAmount = 70, pb_totalCommission = 7 \<rparr>]"
    by (simp add: productsBreakdown_def g ex_groups_values)
  have r: "map e_ncf (rb_entries (restBreakdown [ex_invoice, ex_april_invoice])) = [''B010000001'']"
    "rb_totalCommission (restBreakdown [ex_invoice, ex_april_invoice]) = 0"
    by (simp_all add: restBreakdown_eq ex_invoice_simps ex_invoice_more ex_april_invoice_def)
  show ?thesis
    by (simp add: p grandTotalCommission_def r)
qed

text \<open>
  C6. The claim: for every filtered invoice set the aggregator groups the line items
  with a positive amount by category name, sorts the groups, builds the rest bucket and
  totals the commissions. For an invoice with a line item of amount 10 in a category
  named \<open>constructor\<close>, \<open>productsBreakdown\<close> throws a \<open>TypeError\<close> and builds no group,
  and so does the grand total that is computed from it.
\<close>

theorem C6_inherited_name_throws:
  "productsBreakdown [ex_constructor_invoice] = Inl TypeError
   \<and> grandTotalCommission [ex_constructor_invoice] = Inl TypeError"
  by (simp add: grandTotalCommission_def productsBreakdown_def product_groups_def
      add_product_def Let_def get_property_def inherited_members_def ex_constructor_invoice_def)

section \<open>Properties of the statistics\<close>

lemma month_stats_no_invoices:
  assumes "ms_invoiceCount (month_stats P invs d) = 0"
  shows "ms_totalSales (month_stats P invs d) = 0" "ms_totalCommission (month_stats P invs d) = 0"
  using assms by (simp_all add: month_stats_def Let_def)

lemma ex_invoice_date:
  "parseInvoiceDate P (effective_date ex_invoice) = Some (new_Date 2024 2 1)"
  by (simp add: parseInvoiceDate_def effective_date_def ex_invoice_simps is_date_only_def
      is_digit_def Number_of_digits_def Let_def)

lemma march_2024: "new_Date 2024 2 1 = 19783 * msPerDay"
  by (simp add: new_Date_def MakeDay_def DayFromYear_def DaysBeforeMonth_def InLeapYear_def)

lemma ex_stats:
  "month_stats P [ex_invoice] (2024, 1) =
     \<lparr> ms_totalSales = 0, ms_totalCommission = 0, ms_invoiceCount = 0, ms_avgPerInvoice = 0 \<rparr>"
  "month_stats P [ex_invoice] (2024, 2) =
     \<lparr> ms_totalSales = 100, ms_totalCommission = 5, ms_invoiceCount = 1, ms_avgPerInvoice = 5 \<rparr>"
  by (simp_all add: month_stats_def Let_def ex_invoice_date march_2024 isWithinInterval_def
      startOfMonth_def endOfMonth_def MakeDay_def DayFromYear_def DaysBeforeMonth_def
      InLeapYear_def msPerDay_def ex_invoice_simps ex_invoice_more)

text \<open>
  C7, as claimed: with no invoice in the previous month the percent-change fields are
  "no data" and never the value 0. With one invoice in March 2024 and none in February,
  the three change values of March are the number 0.
\<close>

theorem C7_change_is_zero_counterexample:
  "ms_invoiceCount (previousMonthStats (\<lambda>s. None) [ex_invoice] (2024, 2)) = 0
   \<and> ms_totalSales (selectedMonthStats (\<lambda>s. None) [ex_invoice] (2024, 2)) = 100
   \<and> salesChange (\<lambda>s. None) [ex_invoice] (2024, 2) = 0
   \<and> commissionChange (\<lambda>s. None) [ex_invoice] (2024, 2) = 0
   \<and> invoiceCountChange (\<lambda>s. None) [ex_invoice] (2024, 2) = 0"
  by (simp add: previousMonthStats_def selectedMonthStats_def salesChange_def
      commissionChange_def invoiceCountChange_def subMonths_def ex_stats)

text \<open>
  C7, amended. When the previous month has no invoice, the three change values are
  computed as 0, and none of the three summary cards shows a change indicator: each
  indicator is rendered only under the guard that its previous-month figure is positive.
  What the user sees is a card without percent change, not a card with 0 percent.
\<close>

theorem C7_no_previous_data:
  assumes "ms_invoiceCount (previousMonthStats P invs sel) = 0"
  shows "summary_cards P invs sel =
           \<lparr> sales_indicator = None, commission_indicator = None, count_indicator = None \<rparr>
       \<and> salesChange P invs sel = 0
       \<and> commissionChange P invs sel = 0
       \<and> invoiceCountChange P invs sel = 0"
proof -
  from assms have "ms_totalSales (previousMonthStats P invs sel) = 0"
    "ms_totalCommission (previousMonthStats P invs sel) = 0"
    by (simp_all add: previousMonthStats_def month_stats_no_invoices)
  with assms show ?thesis
    by (simp add: summary_cards_def salesChange_def commissionChange_def
        invoiceCountChange_def Let_def)
qed

theorem C7_no_previous_data_witness:
  "summary_cards (\<lambda>s. None) [ex_invoice] (2024, 2) =
           \<lparr> sales_indicator = None, commission_indicator = None, count_indicator = None \<rparr>"
  using C7_no_previous_data [of "\<lambda>s. None" "[ex_invoice]" "(2024, 2)"]
  by (simp add: previousMonthStats_def subMonths_def ex_stats)

section \<open>Properties of saved line items\<close>

lemma enumerate_map_snd:
  "enumerate n (map f xs) = map (\<lambda>ix. (fst ix, f (snd ix))) (enumerate n xs)"
  by (induction xs arbitrary: n) simp_all

lemma saveInvoice_rows:
  assumes "returned (saveInvoice faults db n d T ra rp rc tc prods sid) \<noteq> None"
    and "\<not> sv_products_fail faults"
  shows "invoice_products_tbl (store (saveInvoice faults db n d T ra rp rc tc prods sid)) =
     invoice_products_tbl db @ productInserts (next_uuid db + 1) (next_uuid db) prods"
  using assms by (simp add: saveInvoice_def Let_def insert_products_def split: if_splits)

lemma handleSaveInvoice_call:
  "fst (handleSaveInvoice faults db ps R ui n d) =
     saveInvoice faults db n d (totalInvoice ui)
       (restAmount (calculations (totalInvoice ui) (productAmounts ui) ps R)) R
       (restCommission (calculations (totalInvoice ui) (productAmounts ui) ps R))
       (totalCommission (calculations (totalInvoice ui) (productAmounts ui) ps R))
       (map (\<lambda>p. \<lparr> li_name = p_name p,
                   li_amount = amount_or_0 (productAmounts ui) (p_id p),
                   li_percentage = p_percentage p,
                   li_commission =
                     amount_or_0 (productAmounts ui) (p_id p) * (p_percentage p / 100) \<rparr>) ps)
       None"
proof -
  have "map (\<lambda>b. \<lparr> li_name = b_name b, li_amount = b_amount b,
                li_percentage = b_percentage b, li_commission = b_commission b \<rparr>)
          (breakdown (calculations (totalInvoice ui) (productAmounts ui) ps R)) =
        map (\<lambda>p. \<lparr> li_name = p_name p,
                   li_amount = amount_or_0 (productAmounts ui) (p_id p),
                   li_percentage = p_percentage p,
                   li_commission =
                     amount_or_0 (productAmounts ui) (p_id p) * (p_percentage p / 100) \<rparr>) ps"
    by (simp add: calculations_def Let_def)
  then show ?thesis
    by (simp only: handleSaveInvoice_def Let_def fst_conv)
qed

lemma productInserts_frozen:
  "productInserts u i
       (map (\<lambda>p. \<lparr> li_name = p_name p,
                   li_amount = amount_or_0 pa (p_id p),
                   li_percentage = p_percentage p,
                   li_commission = amount_or_0 pa (p_id p) * (p_percentage p / 100) \<rparr>) ps) =
     map (\<lambda>ix. \<lparr> ip_id = u + fst ix,
                 ip_invoice_id = i,
                 product_name = p_name (snd ix),
                 amount = amount_or_0 pa (p_id (snd ix)),
                 percentage = p_percentage (snd ix),
                 commission = amount_or_0 pa (p_id (snd ix)) * p_percentage (snd ix) / 100 \<rparr>)
       (enumerate 0 (filter (\<lambda>p. amount_or_0 pa (p_id p) > 0) ps))"
  by (simp add: productInserts_def filter_map comp_def enumerate_map_snd case_prod_beta)

lemma handleSaveInvoice_rows:
  assumes ok: "returned (fst (handleSaveInvoice faults db ps R ui n d)) \<noteq> None"
    and prods: "\<not> sv_products_fail faults"
  shows "invoice_products_tbl (store (fst (handleSaveInvoice faults db ps R ui n d))) =
     invoice_products_tbl db @
       map (\<lambda>ix. \<lparr> ip_id = next_uuid db + 1 + fst ix,
                   ip_invoice_id = next_uuid db,
                   product_name = p_name (snd ix),
                   amount = amount_or_0 (productAmounts ui) (p_id (snd ix)),
                   percentage = p_percentage (snd ix),
                   commission = amount_or_0 (productAmounts ui) (p_id (snd ix))
                                  * p_percentage (snd ix) / 100 \<rparr>)
         (enumerate 0 (filter (\<lambda>p. amount_or_0 (productAmounts ui) (p_id p) > 0) ps))"
  using saveInvoice_rows [OF ok [unfolded handleSaveInvoice_call] prods]
  by (simp only: handleSaveInvoice_call productInserts_frozen)




section \<open>The create path and the failure branches\<close>

lemma amount_or_0_head: "amount_or_0 ((k, v) # pa) k = v"
  by (simp add: amount_or_0_def)

lemma amount_or_0_tail: "k' \<noteq> k \<Longrightarrow> amount_or_0 ((k, v) # pa) k' = amount_or_0 pa k'"
  by (simp add: amount_or_0_def)

lemma amount_or_0_keys:
  "distinct (map fst pa) \<Longrightarrow> map (amount_or_0 pa) (map fst pa) = map snd pa"
proof (induction pa)
  case Nil
  then show ?case by simp
next
  case (Cons kv pa)
  obtain k v where kv: "kv = (k, v)" by (cases kv)
  from Cons.prems kv have "\<forall>k'\<in>set (map fst pa). k' \<noteq> k" by auto
  then have "map (amount_or_0 ((k, v) # pa)) (map fst pa) = map (amount_or_0 pa) (map fst pa)"
    by (intro map_cong refl) (auto simp: amount_or_0_tail)
  with Cons kv show ?case by (simp add: amount_or_0_head)
qed

lemma sum_list_positive_part:
  fixes f :: "'a \<Rightarrow> number"
  assumes "\<forall>x\<in>set xs. 0 \<le> f x"
  shows "sum_list (map f (filter (\<lambda>x. 0 < f x) xs)) = sum_list (map f xs)"
  using assms by (induction xs) (auto simp: not_less)

text \<open>
  The create path keeps the invariant of the specification: with an allocation map
  that has exactly the configured categories as keys and no negative amount, the stored
  rest amount is \<open>max 0\<close> of the total minus the stored line-item amounts.
\<close>

lemma create_path_rest_amount:
  assumes keys: "map fst (productAmounts ui) = map p_id ps"
    and ids: "distinct (map p_id ps)"
    and nonneg: "\<forall>v\<in>set (object_values (productAmounts ui)). 0 \<le> v"
    and ok: "returned (fst (handleSaveInvoice faults db ps R ui n d)) = Some row"
    and prods: "\<not> sv_products_fail faults"
  shows "\<exists>new. invoice_products_tbl (store (fst (handleSaveInvoice faults db ps R ui n d))) =
                 invoice_products_tbl db @ new
             \<and> rest_amount row = max 0 (total_amount row - sum_list (map amount new))"
proof -
  let ?a = "\<lambda>p. amount_or_0 (productAmounts ui) (p_id p)"
  let ?new = "map (\<lambda>ix. \<lparr> ip_id = next_uuid db + 1 + fst ix,
                   ip_invoice_id = next_uuid db,
                   product_name = p_name (snd ix),
                   amount = ?a (snd ix),
                   percentage = p_percentage (snd ix),
                   commission = ?a (snd ix) * p_percentage (snd ix) / 100 \<rparr>)
         (enumerate 0 (filter (\<lambda>p. ?a p > 0) ps))"
  from ok have ok': "returned (fst (handleSaveInvoice faults db ps R ui n d)) \<noteq> None" by simp
  have rows: "invoice_products_tbl (store (fst (handleSaveInvoice faults db ps R ui n d))) =
                 invoice_products_tbl db @ ?new"
    by (rule handleSaveInvoice_rows [OF ok' prods])
  have all: "map ?a ps = map snd (productAmounts ui)"
    using amount_or_0_keys [of "productAmounts ui"] keys ids
    by (simp flip: map_map [of "amount_or_0 (productAmounts ui)" p_id ps, unfolded comp_def])
  from nonneg have nonneg': "\<forall>v\<in>set (map snd (productAmounts ui)). 0 \<le> v"
    by (simp add: set_object_values)
  have "map amount ?new = map ?a (filter (\<lambda>p. ?a p > 0) ps)"
    by (simp add: comp_def enumerate_eq_zip map_snd_zip flip: map_map [of ?a snd, unfolded comp_def])
  then have "sum_list (map amount ?new) = sum_list (map ?a (filter (\<lambda>p. 0 < ?a p) ps))"
    by simp
  also have "\<dots> = sum_list (map ?a ps)"
    using nonneg' all by (intro sum_list_positive_part) (metis (no_types, lifting) in_set_conv_nth length_map nth_map nth_mem)
  finally have s: "sum_list (map amount ?new) = sum_list (object_values (productAmounts ui))"
    by (simp only: all sum_list_object_values)
  from ok have "rest_amount row = max 0 (totalInvoice ui - sum_list (object_values (productAmounts ui)))"
    and "total_amount row = totalInvoice ui"
    by (auto simp: handleSaveInvoice_call saveInvoice_def Let_def calculations_restAmount
        split: if_splits)
  with rows s show ?thesis by (intro exI [of _ ?new]) simp
qed

text \<open>
  The failure branches that do abort: a failed insert of the invoice and a failed
  delete report an error and leave the store, and the invoices held in memory, as
  they were.
\<close>

lemma saveInvoice_insert_failure:
  assumes "sv_insert_fails faults"
  shows "returned (saveInvoice faults db n d T ra rp rc tc prods sid) = None
       \<and> store (saveInvoice faults db n d T ra rp rc tc prods sid) = db
       \<and> (\<exists>msg. toasts (saveInvoice faults db n d T ra rp rc tc prods sid) = [ToastError msg])"
  using assms by (simp add: saveInvoice_def Let_def)

lemma deleteInvoice_failure:
  "deleteInvoice True db st i =
     (\<lparr> returned = False, toasts = [ToastError ''Error al eliminar factura''],
        store = db, refetch = False \<rparr>, st)"
  by (simp add: deleteInvoice_def)

end
